theory Spec2Isabelle
  imports Complex_Main "HOL-Library.Sublist" "HOL-Library.Multiset"
begin

section \<open>Python strings\<close>

text \<open>
  A Python \<^verbatim>\<open>str\<close> is a sequence of Unicode code points, and \<^verbatim>\<open>len\<close> counts code
  points. A character is therefore modelled by its code point and a string by the list
  of its code points; the non-ASCII literals of \<^verbatim>\<open>transcribe.py\<close> are written as numbers.
\<close>

type_synonym uchar = nat
type_synonym ustring = "uchar list"

definition ascii :: "string \<Rightarrow> ustring" where
  "ascii s = map (of_char :: char \<Rightarrow> nat) s"

text \<open>
  \<^verbatim>\<open>str.isspace\<close> on one character: the code points that \<^verbatim>\<open>strip()\<close> removes and
  on which \<^verbatim>\<open>split()\<close> without argument separates.
\<close>

definition is_space :: "uchar \<Rightarrow> bool" where
  "is_space c \<longleftrightarrow>
     (9 \<le> c \<and> c \<le> 13) \<or> (28 \<le> c \<and> c \<le> 32) \<or> c = 133 \<or> c = 160 \<or> c = 5760 \<or>
     (8192 \<le> c \<and> c \<le> 8202) \<or> c = 8232 \<or> c = 8233 \<or> c = 8239 \<or> c = 8287 \<or> c = 12288"

definition py_strip :: "ustring \<Rightarrow> ustring" where
  "py_strip s = rev (dropWhile is_space (rev (dropWhile is_space s)))"

text \<open>
  \<^verbatim>\<open>s.split()\<close>: the maximal runs of non-space characters, in order. The first
  argument is the word read so far.
\<close>

fun split_ws :: "ustring \<Rightarrow> ustring \<Rightarrow> ustring list" where
  "split_ws cur [] = (if cur = [] then [] else [cur])"
| "split_ws cur (c # cs) =
     (if is_space c then (if cur = [] then split_ws [] cs else cur # split_ws [] cs)
      else split_ws (cur @ [c]) cs)"

definition py_split :: "ustring \<Rightarrow> ustring list" where
  "py_split s = split_ws [] s"

definition startswith :: "ustring \<Rightarrow> ustring \<Rightarrow> bool" where
  "startswith s p \<longleftrightarrow> take (length p) s = p"

definition endswith :: "ustring \<Rightarrow> ustring \<Rightarrow> bool" where
  "endswith s p \<longleftrightarrow> length p \<le> length s \<and> drop (length s - length p) s = p"

text \<open>\<^verbatim>\<open>sub in s\<close>: \<open>sub\<close> occurs in \<open>s\<close> as a contiguous piece.\<close>

fun contains :: "ustring \<Rightarrow> ustring \<Rightarrow> bool" where
  "contains [] sub = (sub = [])"
| "contains (c # cs) sub = (startswith (c # cs) sub \<or> contains cs sub)"

section \<open>The content filter\<close>

text \<open>
  The denylist of \<^verbatim>\<open>_filter_repetitive_content\<close>:
  nine tokens, written as code points: U+597D, \<^verbatim>\<open>A\<close>, U+554A, U+55EF, U+54E6, U+5443,
  U+55EF twice, U+54C8 twice, and U+5475.
\<close>

definition filler_tokens :: "ustring list" where
  "filler_tokens =
     [[22909], [65], [21834], [21999], [21734], [21571], [21999, 21999], [21704, 21704], [21621]]"

text \<open>
  The scan for four equal consecutive characters,
  \<^verbatim>\<open>for i in range(len(text) - 3): if text[i] == text[i+1] == text[i+2] == text[i+3]\<close>.
  Every index read is below \<open>length text\<close>.
\<close>

definition has_run4 :: "ustring \<Rightarrow> bool" where
  "has_run4 text \<longleftrightarrow>
     list_ex (\<lambda>i. text ! i = text ! (i + 1) \<and> text ! (i + 1) = text ! (i + 2)
                   \<and> text ! (i + 2) = text ! (i + 3))
             [0 ..< length text - 3]"

text \<open>
  \<^verbatim>\<open>_filter_repetitive_content(text)\<close>, with the source's order of checks: the early
  return for an empty text or a stripped text shorter than 3, the single-word denylist,
  the repeated first two words, the run of four characters.
\<close>

definition filter_repetitive_content :: "ustring \<Rightarrow> ustring" where
  "filter_repetitive_content text =
     (if text = [] \<or> length (py_strip text) < 3 then text
      else
        let words = py_split (py_strip text) in
        if length words = 1 \<and> length (hd words) = 1 \<and> hd words \<in> set filler_tokens then []
        else if length words \<ge> 2 \<and> list_all (\<lambda>word. word = hd words) (take 2 words) then []
        else if length text > 5 \<and> has_run4 text then []
        else text)"

section \<open>Transcription results\<close>

text \<open>
  A backend returns a dict
  \<^verbatim>\<open>{"text": ..., "chunks": [{"text": ..., "timestamp": [start, end]}, ...]}\<close>.
  The source tests a key before it reads it (\<^verbatim>\<open>"chunks" in result\<close>,
  \<^verbatim>\<open>chunk.get('timestamp')\<close>), so the keys are optional here: \<open>None\<close> is an absent
  key. A timestamp is a sequence whose entries may be \<^verbatim>\<open>None\<close>. Python floats are
  modelled by real numbers.
\<close>

record chunk =
  c_text :: "ustring option"
  c_timestamp :: "real option list option"

record result =
  r_text :: "ustring option"
  r_chunks :: "chunk list option"

text \<open>The exceptions the model distinguishes.\<close>

datatype exn = ZeroDivisionError | KeyError | OSError | RuntimeError

section \<open>Combining results\<close>

text \<open>
  The loop of \<^verbatim>\<open>combine_results\<close>: the chunks of a result are appended when the key is
  there and the list is not empty; its text, followed by one space, when the key is there
  and the text is not empty.
\<close>

fun combine_loop :: "result list \<Rightarrow> chunk list \<Rightarrow> ustring \<Rightarrow> chunk list \<times> ustring" where
  "combine_loop [] combined_chunks combined_text = (combined_chunks, combined_text)"
| "combine_loop (r # rs) combined_chunks combined_text =
     combine_loop rs
       (case r_chunks r of
          Some cs \<Rightarrow> if cs \<noteq> [] then combined_chunks @ cs else combined_chunks
        | None \<Rightarrow> combined_chunks)
       (case r_text r of
          Some t \<Rightarrow> if t \<noteq> [] then combined_text @ t @ ascii '' '' else combined_text
        | None \<Rightarrow> combined_text)"

definition combine_results :: "result list \<Rightarrow> result" where
  "combine_results results =
     (case combine_loop results [] [] of
        (combined_chunks, combined_text) \<Rightarrow>
          \<lparr>r_text = Some (py_strip combined_text), r_chunks = Some combined_chunks\<rparr>)"

text \<open>What one result contributes to the combination.\<close>

definition chunks_of :: "result \<Rightarrow> chunk list" where
  "chunks_of r = (case r_chunks r of Some cs \<Rightarrow> cs | None \<Rightarrow> [])"

definition spaced_text_of :: "result \<Rightarrow> ustring" where
  "spaced_text_of r =
     (case r_text r of Some t \<Rightarrow> if t \<noteq> [] then t @ ascii '' '' else [] | None \<Rightarrow> [])"

section \<open>Transcription with a backup model\<close>

text \<open>
  \<^verbatim>\<open>load_model\<close> sets \<^verbatim>\<open>model_name\<close> to \<^verbatim>\<open>"Breeze-ASR-25"\<close>, \<^verbatim>\<open>"faster-whisper"\<close>
  or \<^verbatim>\<open>"Whisper"\<close>, and \<^verbatim>\<open>model_type\<close> to \<^verbatim>\<open>"transformers"\<close> or
  \<^verbatim>\<open>"faster-whisper"\<close>.
\<close>

datatype model_name = Breeze_ASR_25 | Faster_Whisper | Whisper

datatype model_type = Transformers_Type | Faster_Whisper_Type

record config =
  model_name :: model_name
  model_type :: model_type
  faster_whisper_available :: bool

text \<open>
  The speech models are outside the program. For one audio file, \<open>backends\<close> says what
  each call returns or raises: the loaded model called through
  \<^verbatim>\<open>_transcribe_with_faster_whisper\<close> or as a pipeline, the backup
  \<^verbatim>\<open>WhisperModel("large-v2")\<close> (loading and transcribing), and the backup
  \<^verbatim>\<open>openai/whisper-base\<close> pipeline (loading and transcribing).
\<close>

record backends =
  primary_faster_whisper :: "exn + result"
  primary_pipeline :: "exn + result"
  backup_faster_whisper :: "exn + result"
  backup_whisper_base :: "exn + result"

datatype backend_call = Primary | Backup_Large_V2 | Backup_Whisper_Base

text \<open>
  \<^verbatim>\<open>transcribe_with_fallback\<close>. The first component lists the backends called, in
  order; the second is what the function returns or raises. \<^verbatim>\<open>result['text']\<close> on a
  result without that key raises \<^verbatim>\<open>KeyError\<close>. The bare \<^verbatim>\<open>except:\<close> around the
  large-v2 backup turns every exception of that backup into a call of whisper-base.
\<close>

definition transcribe_with_fallback :: "config \<Rightarrow> backends \<Rightarrow> backend_call list \<times> (exn + result)" where
  "transcribe_with_fallback cfg b =
     (case (if model_type cfg = Faster_Whisper_Type then primary_faster_whisper b
            else primary_pipeline b) of
        Inl e \<Rightarrow> ([Primary], Inl e)
      | Inr result \<Rightarrow>
          (case r_text result of
             None \<Rightarrow> ([Primary], Inl KeyError)
           | Some t \<Rightarrow>
               let text = py_strip t in
               if text = ascii ''!'' \<or> text = ascii ''!!!!!!!!!'' \<or> length text \<le> 2 then
                 if model_name cfg = Breeze_ASR_25 then
                   if faster_whisper_available cfg then
                     (case backup_faster_whisper b of
                        Inr r2 \<Rightarrow> ([Primary, Backup_Large_V2], Inr r2)
                      | Inl _ \<Rightarrow>
                          ([Primary, Backup_Large_V2, Backup_Whisper_Base], backup_whisper_base b))
                   else ([Primary, Backup_Whisper_Base], backup_whisper_base b)
                 else ([Primary], Inr result)
               else ([Primary], Inr result)))"

section \<open>Segments\<close>

text \<open>\<^verbatim>\<open>int(x)\<close> on a float truncates toward zero.\<close>

definition py_int :: "real \<Rightarrow> int" where
  "py_int x = (if 0 \<le> x then \<lfloor>x\<rfloor> else \<lceil>x\<rceil>)"

text \<open>
  \<^verbatim>\<open>num_segments = int(total_duration / segment_duration) + 1\<close>; the caller has excluded
  \<open>segment_duration = 0\<close>, where Python raises.
\<close>

definition num_segments :: "real \<Rightarrow> int \<Rightarrow> int" where
  "num_segments total_duration segment_duration =
     py_int (total_duration / real_of_int segment_duration) + 1"

definition start_time_of :: "int \<Rightarrow> nat \<Rightarrow> real" where
  "start_time_of segment_duration i = real_of_int (int i * segment_duration)"

definition end_time_of :: "real \<Rightarrow> int \<Rightarrow> nat \<Rightarrow> real" where
  "end_time_of total_duration segment_duration i =
     min (real_of_int ((int i + 1) * segment_duration)) total_duration"

text \<open>
  The timestamp adjustment of one chunk in \<^verbatim>\<open>transcribe_audio_segments_realtime\<close>:
  \<^verbatim>\<open>chunk.get('timestamp')\<close> is false for an absent key, \<^verbatim>\<open>None\<close> and an empty
  sequence, and then the chunk is left as it is, as it is when the sequence has fewer
  than two entries.
\<close>

definition adjust_chunk :: "real \<Rightarrow> real \<Rightarrow> chunk \<Rightarrow> chunk" where
  "adjust_chunk start_time end_time c =
     (case c_timestamp c of
        None \<Rightarrow> c
      | Some ts \<Rightarrow>
          if ts \<noteq> [] \<and> length ts \<ge> 2 then
            (case (ts ! 0, ts ! 1) of
               (Some a, Some b) \<Rightarrow> c\<lparr>c_timestamp := Some [Some (a + start_time), Some (b + start_time)]\<rparr>
             | _ \<Rightarrow> c\<lparr>c_timestamp := Some [Some start_time, Some (start_time + (end_time - start_time))]\<rparr>)
          else c)"

definition adjust_timestamps :: "real \<Rightarrow> real \<Rightarrow> result \<Rightarrow> result" where
  "adjust_timestamps start_time end_time segment_result =
     (case r_chunks segment_result of
        None \<Rightarrow> segment_result
      | Some cs \<Rightarrow>
          if cs \<noteq> [] then segment_result\<lparr>r_chunks := Some (map (adjust_chunk start_time end_time) cs)\<rparr>
          else segment_result)"

section \<open>The result file\<close>

text \<open>
  A file open for writing: what has reached the file, and what \<^verbatim>\<open>write\<close> has put
  into the buffer since the last \<^verbatim>\<open>flush\<close>. Closing the file (leaving the
  \<^verbatim>\<open>with\<close> block) flushes.
\<close>

record fhandle =
  disk :: ustring
  pending :: ustring

definition f_write :: "ustring \<Rightarrow> fhandle \<Rightarrow> fhandle" where
  "f_write s f = f\<lparr>pending := pending f @ s\<rparr>"

definition f_flush :: "fhandle \<Rightarrow> fhandle" where
  "f_flush f = f\<lparr>disk := disk f @ pending f, pending := []\<rparr>"

definition f_close :: "fhandle \<Rightarrow> ustring" where
  "f_close f = disk f @ pending f"

text \<open>
  The mark written for a timestamp with a \<^verbatim>\<open>None\<close> entry: five Chinese characters
  ("timestamp unknown") in square brackets, followed by a space.
\<close>

definition timestamp_unknown :: ustring where
  "timestamp_unknown = [91, 26178, 38291, 25139, 26410, 30693, 93, 32]"

text \<open>
  The line of a chunk, \<^verbatim>\<open>f"[{start_time:.1f}s - {end_time:.1f}s] {filtered_text}\n"\<close>.
  The rendering \<^verbatim>\<open>:.1f\<close> of a float is the parameter \<open>fmt\<close>.
\<close>

definition chunk_line :: "(real \<Rightarrow> ustring) \<Rightarrow> real option \<Rightarrow> real option \<Rightarrow> ustring \<Rightarrow> ustring" where
  "chunk_line fmt start_time end_time filtered_text =
     (case (start_time, end_time) of
        (Some s, Some e) \<Rightarrow>
          ascii ''['' @ fmt s @ ascii ''s - '' @ fmt e @ ascii ''s] '' @ filtered_text @ ascii [CHR 0x0A]
      | _ \<Rightarrow> timestamp_unknown @ filtered_text @ ascii [CHR 0x0A])"

text \<open>
  The body of the chunk loop of \<^verbatim>\<open>save_result_realtime\<close>. A chunk whose timestamp is
  absent, empty or shorter than two entries writes nothing: the \<^verbatim>\<open>if\<close> has no
  \<^verbatim>\<open>else\<close>. \<^verbatim>\<open>chunk.get('text', '')\<close> is the empty string for an absent key. With
  chunks of this type nothing in the \<^verbatim>\<open>try\<close> block raises, so its \<^verbatim>\<open>except\<close> branch
  is not reached; writing to a file that could be opened is taken to succeed.
\<close>

definition save_chunk :: "(real \<Rightarrow> ustring) \<Rightarrow> chunk \<Rightarrow> fhandle \<Rightarrow> fhandle" where
  "save_chunk fmt c f =
     (case c_timestamp c of
        None \<Rightarrow> f
      | Some ts \<Rightarrow>
          if ts \<noteq> [] \<and> length ts \<ge> 2 then
            let start_time = ts ! 0;
                end_time = ts ! 1;
                text = (case c_text c of None \<Rightarrow> [] | Some t \<Rightarrow> t);
                filtered_text = filter_repetitive_content text
            in if filtered_text = [] then f
               else if py_strip filtered_text \<noteq> [] then
                 f_flush (f_write (chunk_line fmt start_time end_time filtered_text) f)
               else f
          else f)"

text \<open>
  \<^verbatim>\<open>save_result_realtime(result, output_file)\<close> on the content of the output file.
  \<open>can_open\<close> says whether \<^verbatim>\<open>open(output_file, "a")\<close> succeeds; when it does not,
  the exception is raised again by the handler (\<^verbatim>\<open>raise e\<close>).
\<close>

definition save_result_realtime ::
  "(real \<Rightarrow> ustring) \<Rightarrow> bool \<Rightarrow> result \<Rightarrow> ustring \<Rightarrow> exn + ustring" where
  "save_result_realtime fmt can_open res content =
     (if \<not> can_open then Inl OSError
      else
        let f = \<lparr>disk = content, pending = []\<rparr> in
        Inr (f_close
          (case r_chunks res of
             Some (c # cs) \<Rightarrow> fold (save_chunk fmt) (c # cs) f
           | _ \<Rightarrow>
               (case r_text res of
                  Some (x # xs) \<Rightarrow>
                    let filtered_text = filter_repetitive_content (x # xs) in
                    if py_strip filtered_text \<noteq> [] then f_flush (f_write (filtered_text @ ascii [CHR 0x0A]) f)
                    else f
                | _ \<Rightarrow> f))))"

section \<open>The segment loop\<close>

text \<open>
  What lies outside the program while segment \<open>i\<close> is processed: the exit code of the
  \<^verbatim>\<open>ffmpeg\<close> process (or the exception of \<^verbatim>\<open>subprocess.run\<close>), the speech models on
  the extracted file, and whether the output file can be opened for appending.
\<close>

record environment =
  ffmpeg :: "nat \<Rightarrow> exn + int"
  models :: "nat \<Rightarrow> backends"
  can_append :: "nat \<Rightarrow> bool"

text \<open>
  The state of the loop: the content of the output file, \<^verbatim>\<open>all_results\<close>, and the
  segments started so far with their bounds (the progress line printed at the top of each
  iteration, \<^verbatim>\<open>self.current_segment = i + 1\<close>).
\<close>

record loop_state =
  file_content :: ustring
  all_results :: "result list"
  attempts :: "(nat \<times> real \<times> real) list"

text \<open>
  The \<^verbatim>\<open>try\<close> block of one iteration. \<open>Inl\<close> is an exception that reaches the
  \<^verbatim>\<open>except Exception\<close> of the loop; a non-zero exit code is the \<^verbatim>\<open>continue\<close> that
  leaves the state as it is.
\<close>

definition process_segment ::
  "config \<Rightarrow> (real \<Rightarrow> ustring) \<Rightarrow> environment \<Rightarrow> real \<Rightarrow> real \<Rightarrow> nat \<Rightarrow> loop_state \<Rightarrow> exn + loop_state" where
  "process_segment cfg fmt env start_time end_time i st =
     (case ffmpeg env i of
        Inl e \<Rightarrow> Inl e
      | Inr returncode \<Rightarrow>
          if returncode \<noteq> 0 then Inr st
          else
            (case snd (transcribe_with_fallback cfg (models env i)) of
               Inl e \<Rightarrow> Inl e
             | Inr segment_result \<Rightarrow>
                 let adjusted = adjust_timestamps start_time end_time segment_result in
                 (case save_result_realtime fmt (can_append env i) adjusted (file_content st) of
                    Inl e \<Rightarrow> Inl e
                  | Inr content \<Rightarrow>
                      Inr (st\<lparr>file_content := content, all_results := all_results st @ [adjusted]\<rparr>))))"

text \<open>
  \<^verbatim>\<open>for i in range(num_segments)\<close> over the list of indices; the handler of the loop
  only removes the temporary file and continues.
\<close>

fun segment_loop ::
  "config \<Rightarrow> (real \<Rightarrow> ustring) \<Rightarrow> environment \<Rightarrow> real \<Rightarrow> int \<Rightarrow> nat list \<Rightarrow> loop_state \<Rightarrow> loop_state" where
  "segment_loop cfg fmt env total_duration segment_duration [] st = st"
| "segment_loop cfg fmt env total_duration segment_duration (i # is) st =
     (let start_time = start_time_of segment_duration i;
          end_time = end_time_of total_duration segment_duration i;
          st1 = st\<lparr>attempts := attempts st @ [(i, start_time, end_time)]\<rparr>
      in case process_segment cfg fmt env start_time end_time i st1 of
           Inl e \<Rightarrow> segment_loop cfg fmt env total_duration segment_duration is st1
         | Inr st2 \<Rightarrow> segment_loop cfg fmt env total_duration segment_duration is st2)"

text \<open>
  \<^verbatim>\<open>transcribe_audio_segments_realtime\<close>: the content of the output file after the
  loop, the segments attempted, and the combined result. The division by
  \<open>segment_duration = 0\<close> raises before the loop.
\<close>

definition transcribe_audio_segments_realtime ::
  "config \<Rightarrow> (real \<Rightarrow> ustring) \<Rightarrow> environment \<Rightarrow> int \<Rightarrow> real \<Rightarrow> ustring
     \<Rightarrow> exn + (ustring \<times> (nat \<times> real \<times> real) list \<times> result)" where
  "transcribe_audio_segments_realtime cfg fmt env segment_duration duration_min content =
     (if segment_duration = 0 then Inl ZeroDivisionError
      else
        let total_duration = duration_min * 60;
            n = num_segments total_duration segment_duration;
            st = segment_loop cfg fmt env total_duration segment_duration [0 ..< nat n]
                   \<lparr>file_content = content, all_results = [], attempts = []\<rparr>
        in Inr (file_content st, attempts st, combine_results (all_results st)))"

section \<open>More string operations\<close>

text \<open>
  \<^verbatim>\<open>s.split(sep)\<close> for a non-empty separator: the pieces between the occurrences of
  \<open>sep\<close>, read from the left; the second argument is the piece read so far. The source
  only splits on literals (Python raises on an empty separator).
\<close>

function (sequential) split_on :: "ustring \<Rightarrow> ustring \<Rightarrow> ustring \<Rightarrow> ustring list" where
  "split_on sep cur [] = [cur]"
| "split_on sep cur (c # cs) =
     (if sep \<noteq> [] \<and> startswith (c # cs) sep
      then cur # split_on sep [] (drop (length sep) (c # cs))
      else split_on sep (cur @ [c]) cs)"
  by pat_completeness auto
termination
  by (relation "measure (\<lambda>(sep, cur, s). length s)") auto

definition py_split_str :: "ustring \<Rightarrow> ustring \<Rightarrow> ustring list" where
  "py_split_str s sep = split_on sep [] s"

text \<open>
  \<^verbatim>\<open>s.replace(old, new)\<close> for a non-empty \<open>old\<close>: the occurrences of \<open>old\<close> are replaced
  from the left, without overlap.
\<close>

function (sequential) py_replace :: "ustring \<Rightarrow> ustring \<Rightarrow> ustring \<Rightarrow> ustring" where
  "py_replace [] old new = []"
| "py_replace (c # cs) old new =
     (if old \<noteq> [] \<and> startswith (c # cs) old
      then new @ py_replace (drop (length old) (c # cs)) old new
      else c # py_replace cs old new)"
  by pat_completeness auto
termination
  by (relation "measure (\<lambda>(s, old, new). length s)") auto

section \<open>Finding a result file to resume\<close>

text \<open>
  A \<^verbatim>\<open>datetime\<close> is modelled by its distance from \<^verbatim>\<open>datetime.min\<close>, a natural
  number, so that \<^verbatim>\<open>datetime.min\<close> is \<open>0\<close> and the order of datetimes is the order of
  numbers. \<^verbatim>\<open>datetime.strptime(s, '%Y%m%d_%H%M%S')\<close> belongs to the Python library and is
  the parameter \<open>strptime\<close>: \<open>None\<close> when it raises.
\<close>

type_synonym datetime = nat

definition datetime_min :: datetime where
  "datetime_min = 0"

text \<open>
  The local function \<^verbatim>\<open>extract_timestamp\<close> of \<^verbatim>\<open>check_existing_transcription\<close>.
  \<^verbatim>\<open>parts[-1]\<close> is the last piece; \<^verbatim>\<open>split\<close> never returns an empty list.
\<close>

definition extract_timestamp :: "(ustring \<Rightarrow> datetime option) \<Rightarrow> ustring \<Rightarrow> datetime" where
  "extract_timestamp strptime filename =
     (let parts = py_split_str filename (ascii ''-'') in
      if length parts \<ge> 3 then
        (case strptime (py_replace (last parts) (ascii ''.txt'') []) of
           Some d \<Rightarrow> d
         | None \<Rightarrow> datetime_min)
      else datetime_min)"

text \<open>
  A file name fails timestamp parsing when \<^verbatim>\<open>extract_timestamp\<close> falls back to
  \<^verbatim>\<open>datetime.min\<close>: fewer than three pieces, or \<^verbatim>\<open>strptime\<close> raises.
\<close>

definition parse_fails :: "(ustring \<Rightarrow> datetime option) \<Rightarrow> ustring \<Rightarrow> bool" where
  "parse_fails strptime filename \<longleftrightarrow>
     (let parts = py_split_str filename (ascii ''-'') in
      \<not> (length parts \<ge> 3 \<and> strptime (py_replace (last parts) (ascii ''.txt'') []) \<noteq> None))"

text \<open>
  \<^verbatim>\<open>result_files.sort(key=extract_timestamp, reverse=True)\<close>. Python's sort is stable
  and, for \<^verbatim>\<open>reverse=True\<close>, reverses the list, sorts it in ascending order and
  reverses the outcome; \<open>sort_key\<close> is a stable sort in ascending order.
\<close>

definition sort_newest_first :: "(ustring \<Rightarrow> datetime option) \<Rightarrow> ustring list \<Rightarrow> ustring list" where
  "sort_newest_first strptime result_files =
     rev (sort_key (extract_timestamp strptime) (rev result_files))"

definition is_result_file :: "ustring \<Rightarrow> bool" where
  "is_result_file file \<longleftrightarrow> startswith file (ascii ''result-'') \<and> endswith file (ascii ''.txt'')"

text \<open>
  \<^verbatim>\<open>self.output_dir\<close>, a name of four Chinese characters ("transcription results"),
  and \<^verbatim>\<open>os.path.join\<close> of it with a file name.
\<close>

definition output_dir :: ustring where
  "output_dir = [36681, 37636, 32080, 26524]"

definition result_path_of :: "ustring \<Rightarrow> ustring" where
  "result_path_of file = output_dir @ ascii ''/'' @ file"

text \<open>
  The two fingerprint lines: the label "file size" (four Chinese characters), a colon, a
  space, \<^verbatim>\<open>{processed_size_mb:.1f}\<close> and \<^verbatim>\<open> MB\<close>; the label "audio length" (four
  characters), a colon, a space, \<^verbatim>\<open>{processed_duration_min:.1f}\<close>, a space and the word
  "minutes" (two characters).
\<close>

definition size_line :: "(real \<Rightarrow> ustring) \<Rightarrow> real \<Rightarrow> ustring" where
  "size_line fmt size_mb = [27284, 26696, 22823, 23567, 58, 32] @ fmt size_mb @ ascii '' MB''"

definition duration_line :: "(real \<Rightarrow> ustring) \<Rightarrow> real \<Rightarrow> ustring" where
  "duration_line fmt duration_min =
     [38899, 35338, 38263, 24230, 58, 32] @ fmt duration_min @ [32, 20998, 37912]"

text \<open>
  The line prefixes that the search for the first sentence skips:
  the thirteen literals of the source, in its order, as code points: \<^verbatim>\<open>=\<close>, the
  labels of the header (file, model, processing, the two titles, timestamps, file size,
  audio length, transcription time, chunk size, memory use) and the mark of a resumed
  run that starts with \<^verbatim>\<open>---\<close>.
\<close>

definition skipped_prefixes :: "ustring list" where
  "skipped_prefixes =
     [[61], [27284, 26696, 58], [27169, 22411, 58], [34389, 29702],
      [35486, 38899, 36681, 37636, 32080, 26524], [20998, 27573, 36681, 37636, 32080, 26524],
      [20998, 27573, 26178, 38291, 25139], [27284, 26696, 22823, 23567, 58],
      [38899, 35338, 38263, 24230, 58], [36681, 37636, 26178, 38291, 58],
      [20998, 22602, 22823, 23567, 58], [35352, 25014, 39636, 20351, 29992, 29575, 58],
      [45, 45, 45, 32, 32396, 36681, 32080, 26524]]"

text \<open>
  The search for the first sentence: the first stripped line that is not empty, starts
  with none of the prefixes, is longer than 20 characters and does not look like a
  timestamp line.
\<close>

fun first_sentence_of :: "ustring list \<Rightarrow> ustring option" where
  "first_sentence_of [] = None"
| "first_sentence_of (l # ls) =
     (let line = py_strip l in
      if line \<noteq> [] \<and> list_all (\<lambda>p. \<not> startswith line p) skipped_prefixes \<and> length line > 20
         \<and> \<not> (startswith line (ascii ''['') \<and> contains line (ascii '']''))
      then Some line
      else first_sentence_of ls)"

text \<open>
  The three Chinese characters ("no content") returned in place of a first sentence when
  there is none.
\<close>

definition no_content :: ustring where
  "no_content = [28961, 20839, 23481]"

text \<open>
  The loop over the sorted result files. \<open>read\<close> gives the content of a path, \<open>None\<close>
  when opening or reading raises (\<^verbatim>\<open>except Exception: continue\<close>).
\<close>

fun first_match ::
  "(ustring \<Rightarrow> ustring option) \<Rightarrow> ustring \<Rightarrow> ustring \<Rightarrow> ustring list \<Rightarrow> (ustring \<times> ustring) option" where
  "first_match read size_l duration_l [] = None"
| "first_match read size_l duration_l (result_file # rest) =
     (case read (result_path_of result_file) of
        None \<Rightarrow> first_match read size_l duration_l rest
      | Some content \<Rightarrow>
          if contains content size_l \<and> contains content duration_l then
            (case first_sentence_of (py_split_str content (ascii [CHR 0x0A])) of
               Some first_sentence \<Rightarrow> Some (result_path_of result_file, first_sentence)
             | None \<Rightarrow> Some (result_path_of result_file, no_content))
          else first_match read size_l duration_l rest)"

text \<open>
  \<^verbatim>\<open>check_existing_transcription\<close> once the processed audio has been measured:
  \<open>listing\<close> is \<^verbatim>\<open>os.listdir(self.output_dir)\<close>, \<open>None\<close> when the directory does not
  exist. The result is the path of the file found and the first sentence.
\<close>

definition check_existing_transcription ::
  "(ustring \<Rightarrow> datetime option) \<Rightarrow> (real \<Rightarrow> ustring) \<Rightarrow> ustring list option \<Rightarrow> (ustring \<Rightarrow> ustring option)
     \<Rightarrow> real \<Rightarrow> real \<Rightarrow> (ustring \<times> ustring) option" where
  "check_existing_transcription strptime fmt listing read processed_size_mb processed_duration_min =
     (case listing of
        None \<Rightarrow> None
      | Some files \<Rightarrow>
          first_match read (size_line fmt processed_size_mb) (duration_line fmt processed_duration_min)
            (sort_newest_first strptime (filter is_result_file files)))"

text \<open>
  The test of the loop on one file name: its content can be read and holds both
  fingerprint lines.
\<close>

definition fingerprint_matches ::
  "(real \<Rightarrow> ustring) \<Rightarrow> (ustring \<Rightarrow> ustring option) \<Rightarrow> real \<Rightarrow> real \<Rightarrow> ustring \<Rightarrow> bool" where
  "fingerprint_matches fmt read size_mb duration_min file \<longleftrightarrow>
     (case read (result_path_of file) of
        None \<Rightarrow> False
      | Some content \<Rightarrow>
          contains content (size_line fmt size_mb) \<and> contains content (duration_line fmt duration_min))"

section \<open>Deciding whether a result file is complete\<close>

text \<open>
  The scan of \<^verbatim>\<open>resume_transcription\<close> for the last timestamp, over the lines in
  reverse order. \<^verbatim>\<open>float(...)\<close> is the parameter \<open>py_float\<close>, \<open>None\<close> when it raises;
  an index out of range raises too, and the bare \<^verbatim>\<open>except\<close> continues with the next
  line.
\<close>

fun scan_last_timestamp :: "(ustring \<Rightarrow> real option) \<Rightarrow> ustring list \<Rightarrow> real option" where
  "scan_last_timestamp py_float [] = None"
| "scan_last_timestamp py_float (l # ls) =
     (let line = py_strip l in
      if startswith line (ascii ''['') \<and> contains line (ascii '']'') then
        (case py_split_str line (ascii '']'') of
           [] \<Rightarrow> scan_last_timestamp py_float ls
         | part # _ \<Rightarrow>
             let timestamp_part = drop 1 part in
             if contains timestamp_part (ascii '' - '') then
               (case py_split_str timestamp_part (ascii '' - '') of
                  _ # end_time_str # _ \<Rightarrow>
                    if endswith end_time_str (ascii ''s'') then
                      (case py_float (butlast end_time_str) of
                         Some end_time \<Rightarrow> Some end_time
                       | None \<Rightarrow> scan_last_timestamp py_float ls)
                    else scan_last_timestamp py_float ls
                | _ \<Rightarrow> scan_last_timestamp py_float ls)
             else scan_last_timestamp py_float ls)
      else scan_last_timestamp py_float ls)"

text \<open>
  The label of the section of results (six Chinese characters and a colon), after which
  the transcribed content starts.
\<close>

definition section_label :: ustring where
  "section_label = [20998, 27573, 36681, 37636, 32080, 26524, 58]"

definition last_timestamp_of :: "(ustring \<Rightarrow> real option) \<Rightarrow> ustring \<Rightarrow> real option" where
  "last_timestamp_of py_float existing_content =
     (let transcribed_content =
            (if contains existing_content section_label
             then (case py_split_str existing_content section_label of
                     _ # second # _ \<Rightarrow> second
                   | _ \<Rightarrow> [])
             else existing_content);
          lines = py_split_str (py_strip transcribed_content) (ascii [CHR 0x0A])
      in scan_last_timestamp py_float (rev lines))"

text \<open>
  The third component of what \<^verbatim>\<open>resume_transcription\<close> returns: whether the
  transcription is complete. \<^verbatim>\<open>if last_timestamp and ...\<close> is false for \<^verbatim>\<open>None\<close> and
  for the float \<open>0.0\<close>. The product \<^verbatim>\<open>duration_min * 60\<close> and the difference are those
  of the real numbers; Python rounds each to a float, so the two agree only where these
  values are floats themselves (as whole numbers and halves of moderate size are).
\<close>

definition resume_transcription :: "(ustring \<Rightarrow> real option) \<Rightarrow> ustring \<Rightarrow> real \<Rightarrow> bool" where
  "resume_transcription py_float existing_content duration_min =
     (let last_timestamp = last_timestamp_of py_float existing_content;
          total_duration = duration_min * 60
      in case last_timestamp of
           None \<Rightarrow> False
         | Some t \<Rightarrow> t \<noteq> 0 \<and> t \<ge> total_duration - 30)"

section \<open>Creating the result file\<close>

text \<open>
  The values written into the header. Floats printed with \<^verbatim>\<open>:.1f\<close> are kept as
  numbers and rendered by \<open>fmt\<close>; the other values are given as the text that Python
  prints for them.
\<close>

record header_info =
  h_audio_path :: ustring
  h_description :: ustring
  h_acceleration :: ustring
  h_memory_gb :: real
  h_size_mb :: real
  h_duration_min :: real
  h_segment_duration :: ustring
  h_batch_size :: ustring
  h_torch_dtype :: ustring
  h_now :: ustring

definition rule60 :: ustring where
  "rule60 = replicate 60 61"

definition header_block :: "(real \<Rightarrow> ustring) \<Rightarrow> header_info \<Rightarrow> ustring" where
  "header_block fmt h =
     [26234, 33021, 35486, 38899, 36681, 37636, 32080, 26524] @ ascii '' (Breeze-ASR-25)'' @ [10]
     @ rule60 @ [10]
     @ [27284, 26696, 58, 32] @ h_audio_path h @ [10]
     @ [27169, 22411, 58, 32] @ ascii ''MediaTek-Research/Breeze-ASR-25'' @ [10]
     @ [34389, 29702, 26041, 27861, 58, 32, 26234, 33021, 20998, 27573, 36681, 37636] @ [10]
     @ [30828, 39636, 37197, 32622, 58, 32] @ h_description h @ [10]
     @ [21152, 36895, 26041, 24335, 58, 32] @ h_acceleration h @ [10]
     @ [35352, 25014, 39636, 58, 32] @ fmt (h_memory_gb h) @ ascii '' GB'' @ [10]
     @ size_line fmt (h_size_mb h) @ [10]
     @ duration_line fmt (h_duration_min h) @ [10]
     @ [26234, 33021, 20998, 27573, 22823, 23567, 58, 32] @ h_segment_duration h @ [32, 31186] @ [10]
     @ [25209, 27425, 22823, 23567, 58, 32] @ h_batch_size h @ [10]
     @ [31934, 24230, 58, 32] @ h_torch_dtype h @ [10]
     @ [36681, 37636, 26178, 38291, 58, 32] @ h_now h @ [10]
     @ rule60 @ [10, 10]
     @ [26234, 33021, 20998, 27573, 36681, 37636, 32080, 26524, 58] @ [10]
     @ rule60 @ [10]"

text \<open>
  \<^verbatim>\<open>create_segmented_transcription\<close> on the files of the output directory, a map from
  paths to contents. With an existing result path that exists, nothing is written;
  otherwise the new file, named after the audio file and the clock, is opened with
  \<^verbatim>\<open>"w"\<close> and receives the header.
\<close>

definition create_segmented_transcription ::
  "(real \<Rightarrow> ustring) \<Rightarrow> header_info \<Rightarrow> ustring \<Rightarrow> ustring \<Rightarrow> ustring option
     \<Rightarrow> (ustring \<rightharpoonup> ustring) \<Rightarrow> ustring \<times> (ustring \<rightharpoonup> ustring)" where
  "create_segmented_transcription fmt h filename timestamp existing_result_path fs =
     (case existing_result_path of
        Some (c # cs) \<Rightarrow>
          if fs (c # cs) \<noteq> None then (c # cs, fs)
          else
            (let output_file = output_dir @ ascii ''/result-'' @ filename @ ascii ''-'' @ timestamp @ ascii ''.txt''
             in (output_file, fs(output_file \<mapsto> header_block fmt h)))
      | _ \<Rightarrow>
          (let output_file = output_dir @ ascii ''/result-'' @ filename @ ascii ''-'' @ timestamp @ ascii ''.txt''
           in (output_file, fs(output_file \<mapsto> header_block fmt h))))"

section \<open>A run of 130 seconds in segments of 60\<close>

text \<open>
  The end-to-end scenario of the specification: three segments, the extraction of the
  second one exits with a non-zero code. The models return one chunk per segment, with
  timestamps local to the segment.
\<close>

definition one_chunk :: "ustring \<Rightarrow> real \<Rightarrow> real \<Rightarrow> result" where
  "one_chunk t a b = \<lparr>r_text = Some t, r_chunks = Some [\<lparr>c_text = Some t, c_timestamp = Some [Some a, Some b]\<rparr>]\<rparr>"

definition scenario_models :: "nat \<Rightarrow> backends" where
  "scenario_models i =
     (let r = (if i = 0 then one_chunk (ascii ''hello world'') 0 5
               else one_chunk (ascii ''good morning'') 1 4)
      in \<lparr>primary_faster_whisper = Inr r, primary_pipeline = Inr r,
          backup_faster_whisper = Inl RuntimeError, backup_whisper_base = Inl RuntimeError\<rparr>)"

definition scenario_env :: environment where
  "scenario_env =
     \<lparr>ffmpeg = (\<lambda>i. if i = 1 then Inr 1 else Inr 0),
      models = scenario_models,
      can_append = (\<lambda>i. True)\<rparr>"

text \<open>A rendering of floats for the examples: the values that occur, to one decimal.\<close>

definition example_fmt :: "real \<Rightarrow> ustring" where
  "example_fmt x =
     (if x = 0 then ascii ''0.0'' else if x = 5 then ascii ''5.0''
      else if x = 121 then ascii ''121.0'' else if x = 124 then ascii ''124.0''
      else if x = 12.3 then ascii ''12.3'' else if x = 2.2 then ascii ''2.2''
      else ascii ''?'')"

text \<open>A header for the examples.\<close>

definition example_header :: header_info where
  "example_header =
     \<lparr>h_audio_path = ascii ''source.aac'', h_description = ascii ''x86_64 CPU'',
      h_acceleration = ascii ''CPU'', h_memory_gb = 5, h_size_mb = 12.3, h_duration_min = 2.2,
      h_segment_duration = ascii ''60'', h_batch_size = ascii ''1'',
      h_torch_dtype = ascii ''torch.float32'', h_now = ascii ''2025-09-03 22:03:56''\<rparr>"

text \<open>
  An output directory for the examples: two result files written on 3 and 4 September
  2025, one result file whose name carries no timestamp, and a file that is no result
  file. \<open>example_strptime\<close> gives the two timestamps their order and raises on anything
  else. The file of 4 September was written for an audio of another size (5.0 MB); the
  other two result files carry the header of the audio at hand (12.3 MB, 2.2 minutes).
\<close>

definition example_strptime :: "ustring \<Rightarrow> datetime option" where
  "example_strptime s =
     (if s = ascii ''20250903_220356'' then Some 3
      else if s = ascii ''20250904_220356'' then Some 4
      else None)"

definition example_listing :: "ustring list" where
  "example_listing =
     [ascii ''result-source-backup.txt'', ascii ''result-source-20250903_220356.txt'',
      ascii ''notes.txt'', ascii ''result-source-20250904_220356.txt'']"

definition other_audio_content :: ustring where
  "other_audio_content =
     size_line example_fmt 5 @ [10] @ duration_line example_fmt 2.2 @ [10]"

definition example_read :: "ustring \<Rightarrow> ustring option" where
  "example_read path =
     (if path = result_path_of (ascii ''notes.txt'') then None
      else if path = result_path_of (ascii ''result-source-20250904_220356.txt'')
        then Some other_audio_content
      else Some (header_block example_fmt example_header))"

section \<open>Properties of the content filter\<close>

lemma filter_repetitive_content_cases:
  "filter_repetitive_content t = [] \<or> filter_repetitive_content t = t"
  by (simp add: filter_repetitive_content_def Let_def)

lemma filter_repetitive_content_Nil: "filter_repetitive_content [] = []"
  by (simp add: filter_repetitive_content_def)

text \<open>
  C10. The filter returns the empty string or its argument, exactly; hence it is
  idempotent; and a text whose stripped length is below 3 comes back unchanged.
\<close>

theorem filter_returns_empty_or_input:
  "(filter_repetitive_content t = [] \<or> filter_repetitive_content t = t)
   \<and> filter_repetitive_content (filter_repetitive_content t) = filter_repetitive_content t
   \<and> (length (py_strip t) < 3 \<longrightarrow> filter_repetitive_content t = t)"
proof -
  have idem: "filter_repetitive_content (filter_repetitive_content t) = filter_repetitive_content t"
    using filter_repetitive_content_cases [of t] filter_repetitive_content_Nil by auto
  have short: "length (py_strip t) < 3 \<longrightarrow> filter_repetitive_content t = t"
    by (simp add: filter_repetitive_content_def)
  from filter_repetitive_content_cases [of t] idem short show ?thesis by blast
qed

theorem filter_returns_empty_or_input_witness:
  "length (py_strip (ascii ''ab '')) < 3
   \<and> filter_repetitive_content (ascii ''ab '') = ascii ''ab ''
   \<and> filter_repetitive_content (filter_repetitive_content (ascii ''ab ''))
       = filter_repetitive_content (ascii ''ab '')"
proof -
  have h: "length (py_strip (ascii ''ab '')) < 3"
    by (simp add: py_strip_def ascii_def is_space_def)
  from filter_returns_empty_or_input [of "ascii ''ab ''"] h show ?thesis by blast
qed

lemma concat_split_ws: "concat (split_ws cur s) = cur @ filter (\<lambda>c. \<not> is_space c) s"
  by (induction s arbitrary: cur) auto

lemma dropWhile_snoc_keep: "\<not> P x \<Longrightarrow> dropWhile P (ys @ [x]) = dropWhile P ys @ [x]"
  by (induction ys) auto

lemma py_strip_hd:
  assumes "py_strip t \<noteq> []"
  shows "\<not> is_space (hd (py_strip t))"
proof -
  let ?u = "dropWhile is_space t"
  have u: "?u \<noteq> []"
  proof
    assume a: "?u = []"
    have "py_strip t = []" unfolding py_strip_def a by simp
    with assms show False by simp
  qed
  then have hu: "\<not> is_space (hd ?u)" by (rule hd_dropWhile)
  obtain x xs where ux: "?u = x # xs" using u by (cases ?u) auto
  with hu have x: "\<not> is_space x" by simp
  have "rev ?u = rev xs @ [x]" using ux by simp
  then have "dropWhile is_space (rev ?u) = dropWhile is_space (rev xs) @ [x]"
    using x by (simp add: dropWhile_snoc_keep)
  then show ?thesis using x by (simp add: py_strip_def)
qed

lemma py_strip_last:
  assumes "py_strip t \<noteq> []"
  shows "\<not> is_space (last (py_strip t))"
proof -
  let ?v = "dropWhile is_space (rev (dropWhile is_space t))"
  from assms have "?v \<noteq> []" by (simp add: py_strip_def)
  then have "\<not> is_space (hd ?v)" by (rule hd_dropWhile)
  then show ?thesis using \<open>?v \<noteq> []\<close> by (simp add: py_strip_def last_rev)
qed

lemma two_nonspace:
  assumes "length s \<ge> 2" "\<not> is_space (hd s)" "\<not> is_space (last s)"
  shows "length (filter (\<lambda>c. \<not> is_space c) s) \<ge> 2"
proof -
  from assms(1) obtain x ys where s: "s = x # ys" and ys: "ys \<noteq> []"
    by (cases s) (auto simp: Suc_le_eq)
  then obtain zs y where ysd: "ys = zs @ [y]" by (metis rev_exhaust)
  from s ysd assms(2,3) show ?thesis by simp
qed

text \<open>
  A stripped text of three characters or more that is a single word is that word, so the
  word has more than one character: the denylist test of the filter, which asks for a
  word of length 1, is never reached with a word that passes it.
\<close>

lemma single_word_rule_unreachable:
  assumes "length (py_strip t) \<ge> 3" "py_split (py_strip t) = [w]"
  shows "length w \<ge> 2"
proof -
  from assms(1) have ne: "py_strip t \<noteq> []" by auto
  have "w = concat (py_split (py_strip t))" using assms(2) by simp
  also have "\<dots> = filter (\<lambda>c. \<not> is_space c) (py_strip t)"
    by (simp add: py_split_def concat_split_ws)
  finally show ?thesis
    using two_nonspace [of "py_strip t"] py_strip_hd [OF ne] py_strip_last [OF ne] assms(1) by simp
qed

text \<open>
  When the filter returns the empty string: on the empty text, and on a text whose
  stripped length is at least 3 and whose first two words are equal or which is longer
  than 5 and has a run of four equal characters.
\<close>

lemma filter_repetitive_content_empty_iff:
  "filter_repetitive_content t = [] \<longleftrightarrow>
     t = [] \<or> (3 \<le> length (py_strip t)
       \<and> ((2 \<le> length (py_split (py_strip t))
            \<and> py_split (py_strip t) ! 1 = py_split (py_strip t) ! 0)
           \<or> (5 < length t \<and> has_run4 t)))"
proof (cases "t = [] \<or> length (py_strip t) < 3")
  case True
  then show ?thesis by (auto simp: filter_repetitive_content_def)
next
  case False
  then have l: "3 \<le> length (py_strip t)" and ne: "t \<noteq> []" by auto
  let ?ws = "py_split (py_strip t)"
  have one: "\<not> (length ?ws = 1 \<and> length (hd ?ws) = 1 \<and> hd ?ws \<in> set filler_tokens)"
  proof
    assume a: "length ?ws = 1 \<and> length (hd ?ws) = 1 \<and> hd ?ws \<in> set filler_tokens"
    then obtain w where w: "?ws = [w]" by (cases ?ws) auto
    from single_word_rule_unreachable [OF l w] a w show False by simp
  qed
  have two: "2 \<le> length ?ws \<Longrightarrow> list_all (\<lambda>word. word = hd ?ws) (take 2 ?ws) \<longleftrightarrow> ?ws ! 1 = ?ws ! 0"
  proof -
    assume "2 \<le> length ?ws"
    then obtain a b r where "?ws = a # b # r" by (cases ?ws; cases "tl ?ws") auto
    then show ?thesis by (auto simp: numeral_2_eq_2)
  qed
  show ?thesis
    using l ne one two by (auto simp: filter_repetitive_content_def Let_def)
qed

text \<open>
  C5. The single filler token U+597D is on the denylist and is a text of one word, yet
  the filter returns it unchanged: the early return for a stripped text shorter than 3
  comes before the denylist.
\<close>

theorem single_filler_token_not_filtered:
  "[22909] \<in> set filler_tokens
   \<and> py_split (py_strip [22909]) = [[22909]]
   \<and> filter_repetitive_content [22909] = [22909]"
  by (simp add: filter_repetitive_content_def py_split_def py_strip_def is_space_def filler_tokens_def)

section \<open>Properties of combining and of the backup policy\<close>

lemma combine_loop_eq:
  "combine_loop rs cc ct = (cc @ concat (map chunks_of rs), ct @ concat (map spaced_text_of rs))"
  by (induction rs arbitrary: cc ct) (auto simp: chunks_of_def spaced_text_of_def split: option.splits)

text \<open>
  C8, as the claim states it, fails: the two texts \<^verbatim>\<open>"A "\<close> and \<^verbatim>\<open>"B "\<close> are each
  followed by the separator, so the combined text is \<^verbatim>\<open>"A  B"\<close> with two spaces, not
  \<^verbatim>\<open>"A B"\<close>.
\<close>

theorem combine_results_example_counterexample:
  "r_text (combine_results
      [\<lparr>r_text = Some (ascii ''A ''), r_chunks = Some [\<lparr>c_text = Some (ascii ''A ''), c_timestamp = None\<rparr>]\<rparr>,
       \<lparr>r_text = Some (ascii ''B ''), r_chunks = Some [\<lparr>c_text = Some (ascii ''B ''), c_timestamp = None\<rparr>]\<rparr>])
   \<noteq> Some (ascii ''A B'')"
  by (simp add: combine_results_def ascii_def py_strip_def is_space_def)

text \<open>
  C8, amended. The combined text is the concatenation of the non-empty texts, each
  followed by one space, trimmed at both ends; the combined chunks are the chunk lists
  concatenated in order. Combining \<^verbatim>\<open>{text: "A ", chunks: [s1]}\<close> and
  \<^verbatim>\<open>{text: "B ", chunks: [s2]}\<close> gives the text \<^verbatim>\<open>"A  B"\<close> and the chunks
  \<^verbatim>\<open>[s1, s2]\<close>; the texts \<^verbatim>\<open>"A"\<close> and \<^verbatim>\<open>"B"\<close> give \<^verbatim>\<open>"A B"\<close>.
\<close>

theorem combine_results_concat:
  "combine_results rs =
     \<lparr>r_text = Some (py_strip (concat (map spaced_text_of rs))),
      r_chunks = Some (concat (map chunks_of rs))\<rparr>
   \<and> combine_results [\<lparr>r_text = Some (ascii ''A ''), r_chunks = Some [s1]\<rparr>,
                       \<lparr>r_text = Some (ascii ''B ''), r_chunks = Some [s2]\<rparr>]
       = \<lparr>r_text = Some (ascii ''A  B''), r_chunks = Some [s1, s2]\<rparr>
   \<and> combine_results [\<lparr>r_text = Some (ascii ''A''), r_chunks = Some [s1]\<rparr>,
                       \<lparr>r_text = Some (ascii ''B''), r_chunks = Some [s2]\<rparr>]
       = \<lparr>r_text = Some (ascii ''A B''), r_chunks = Some [s1, s2]\<rparr>"
proof -
  have general: "combine_results rs =
     \<lparr>r_text = Some (py_strip (concat (map spaced_text_of rs))),
      r_chunks = Some (concat (map chunks_of rs))\<rparr>"
    by (simp add: combine_results_def combine_loop_eq)
  have two_spaces: "combine_results [\<lparr>r_text = Some (ascii ''A ''), r_chunks = Some [s1]\<rparr>,
                       \<lparr>r_text = Some (ascii ''B ''), r_chunks = Some [s2]\<rparr>]
       = \<lparr>r_text = Some (ascii ''A  B''), r_chunks = Some [s1, s2]\<rparr>"
    by (simp add: combine_results_def ascii_def py_strip_def is_space_def)
  have one_space: "combine_results [\<lparr>r_text = Some (ascii ''A''), r_chunks = Some [s1]\<rparr>,
                       \<lparr>r_text = Some (ascii ''B''), r_chunks = Some [s2]\<rparr>]
       = \<lparr>r_text = Some (ascii ''A B''), r_chunks = Some [s1, s2]\<rparr>"
    by (simp add: combine_results_def ascii_def py_strip_def is_space_def)
  from general two_spaces one_space show ?thesis by blast
qed




section \<open>Properties of saving and of the segment loop\<close>

lemma save_chunk_flushed:
  "pending f = [] \<Longrightarrow> pending (save_chunk fmt c f) = [] \<and> prefix (disk f) (disk (save_chunk fmt c f))"
  by (auto simp: save_chunk_def f_flush_def f_write_def Let_def split: option.splits)

lemma fold_save_chunk_flushed:
  "pending f = [] \<Longrightarrow>
     pending (fold (save_chunk fmt) cs f) = [] \<and> prefix (disk f) (disk (fold (save_chunk fmt) cs f))"
proof (induction cs arbitrary: f)
  case Nil
  then show ?case by simp
next
  case (Cons c cs)
  from save_chunk_flushed [OF Cons.prems, of fmt c]
  have p: "pending (save_chunk fmt c f) = []" and q: "prefix (disk f) (disk (save_chunk fmt c f))"
    by auto
  from Cons.IH [OF p] q show ?case by (auto intro: prefix_order.trans)
qed

text \<open>
  What \<open>save_result_realtime\<close> returns is what has reached the file when the file is
  closed: nothing is left in the buffer, and the old content is the beginning of the new.
\<close>

lemma save_result_realtime_written:
  assumes "save_result_realtime fmt ok res content = Inr content'"
  shows "\<exists>g :: fhandle. pending g = [] \<and> prefix content (disk g) \<and> content' = disk g"
proof -
  define f where "f = \<lparr>disk = content, pending = []\<rparr>"
  define tb where "tb = (case r_text res of
        Some (x # xs) \<Rightarrow>
          let filtered_text = filter_repetitive_content (x # xs) in
          if py_strip filtered_text \<noteq> [] then f_flush (f_write (filtered_text @ ascii [CHR 0x0A]) f)
          else f
      | _ \<Rightarrow> f)"
  define g where "g = (case r_chunks res of
               Some (c # cs) \<Rightarrow> fold (save_chunk fmt) (c # cs) f
             | _ \<Rightarrow> tb)"
  have p: "pending f = []" and d: "disk f = content" by (simp_all add: f_def)
  have t: "pending tb = [] \<and> prefix content (disk tb)"
    using p d by (simp add: tb_def Let_def f_flush_def f_write_def split: option.splits list.splits)
  have gp: "pending g = [] \<and> prefix content (disk g)"
  proof (cases "r_chunks res")
    case None
    with t show ?thesis by (simp add: g_def)
  next
    case (Some cs)
    show ?thesis
    proof (cases cs)
      case Nil
      with Some t show ?thesis by (simp add: g_def)
    next
      case (Cons c cs')
      from fold_save_chunk_flushed [OF p, of fmt "c # cs'"] d
      have "pending (fold (save_chunk fmt) (c # cs') f) = []
            \<and> prefix content (disk (fold (save_chunk fmt) (c # cs') f))" by simp
      moreover have "g = fold (save_chunk fmt) (c # cs') f"
        using Some Cons by (simp add: g_def)
      ultimately show ?thesis by simp
    qed
  qed
  from assms have "content' = f_close g"
    unfolding g_def tb_def f_def
    by (auto simp add: save_result_realtime_def Let_def split: if_splits)
  with gp have "content' = disk g" by (simp add: f_close_def)
  with gp show ?thesis by blast
qed

lemma save_result_realtime_appends:
  assumes "save_result_realtime fmt ok res content = Inr content'"
  shows "prefix content content'"
  using save_result_realtime_written [OF assms] by blast

lemma process_segment_state:
  assumes "process_segment cfg fmt env s e i st = Inr st2"
  shows "attempts st2 = attempts st \<and> prefix (file_content st) (file_content st2)"
  using assms
  by (auto simp: process_segment_def Let_def split: sum.splits if_splits
           dest: save_result_realtime_appends)

text \<open>The loop starts every index it is given, whatever happens to the segments.\<close>

lemma segment_loop_attempts:
  "attempts (segment_loop cfg fmt env tot seg is st) =
     attempts st @ map (\<lambda>i. (i, start_time_of seg i, end_time_of tot seg i)) is"
proof (induction "is" arbitrary: st)
  case Nil
  then show ?case by simp
next
  case (Cons i "is")
  show ?case
    by (auto simp: Let_def Cons.IH split: sum.splits dest: process_segment_state)
qed

lemma segment_loop_appends:
  "prefix (file_content st) (file_content (segment_loop cfg fmt env tot seg is st))"
proof (induction "is" arbitrary: st)
  case Nil
  then show ?case by simp
next
  case (Cons i "is")
  let ?st1 = "st\<lparr>attempts := attempts st @ [(i, start_time_of seg i, end_time_of tot seg i)]\<rparr>"
  show ?case
  proof (cases "process_segment cfg fmt env (start_time_of seg i) (end_time_of tot seg i) i ?st1")
    case (Inl e)
    with Cons.IH [of ?st1] show ?thesis by (simp add: Let_def)
  next
    case (Inr st2)
    from process_segment_state [OF Inr] have "prefix (file_content st) (file_content st2)" by simp
    with Cons.IH [of st2] Inr show ?thesis by (auto simp: Let_def intro: prefix_order.trans)
  qed
qed

lemma transcribe_audio_segments_realtime_returns:
  assumes "seg \<noteq> 0"
  shows "\<exists>content' r.
           transcribe_audio_segments_realtime cfg fmt env seg duration_min content =
             Inr (content',
                  map (\<lambda>i. (i, start_time_of seg i, end_time_of (duration_min * 60) seg i))
                      [0 ..< nat (num_segments (duration_min * 60) seg)],
                  r)
           \<and> prefix content content'"
  using assms segment_loop_appends
    [of "\<lparr>file_content = content, all_results = [], attempts = []\<rparr>" cfg fmt env
        "duration_min * 60" seg "[0 ..< nat (num_segments (duration_min * 60) seg)]"]
  by (simp add: transcribe_audio_segments_realtime_def Let_def segment_loop_attempts)

section \<open>The number of segments\<close>

lemma num_segments_floor:
  "0 \<le> tot \<Longrightarrow> 0 < seg \<Longrightarrow> num_segments tot seg = \<lfloor>tot / real_of_int seg\<rfloor> + 1"
  by (simp add: num_segments_def py_int_def)

text \<open>
  The number of segments is the ceiling of the quotient when the quotient is not a whole
  number, and one more than it when it is.
\<close>

lemma num_segments_ceiling:
  assumes "0 \<le> tot" "0 < seg"
  shows "num_segments tot seg =
           (if tot / real_of_int seg \<in> \<int> then \<lceil>tot / real_of_int seg\<rceil> + 1
            else \<lceil>tot / real_of_int seg\<rceil>)"
proof (cases "tot / real_of_int seg \<in> \<int>")
  case True
  then obtain k :: int where k: "tot / real_of_int seg = real_of_int k" by (auto elim: Ints_cases)
  have "\<lfloor>tot / real_of_int seg\<rfloor> = k" "\<lceil>tot / real_of_int seg\<rceil> = k" unfolding k by simp_all
  with True assms show ?thesis by (simp add: num_segments_floor)
next
  case False
  then have "\<lceil>tot / real_of_int seg\<rceil> = \<lfloor>tot / real_of_int seg\<rfloor> + 1"
    by (simp add: ceiling_altdef) (metis Ints_of_int)
  with False assms show ?thesis by (simp add: num_segments_floor)
qed

text \<open>Each segment but the last ends where the next one starts; the last ends at the total.\<close>

lemma segments_meet:
  assumes "0 \<le> tot" "0 < seg" "int i + 1 < num_segments tot seg"
  shows "end_time_of tot seg i = start_time_of seg (Suc i)"
proof -
  from assms have "int i + 1 \<le> \<lfloor>tot / real_of_int seg\<rfloor>" by (simp add: num_segments_floor)
  then have "real_of_int (int i + 1) \<le> tot / real_of_int seg" by (simp add: le_floor_iff)
  with assms(2) have "real_of_int (int i + 1) * real_of_int seg \<le> tot"
    by (simp add: pos_le_divide_eq)
  then show ?thesis by (simp add: end_time_of_def start_time_of_def min_def)
qed

lemma last_segment_ends_at_total:
  assumes "0 \<le> tot" "0 < seg" "int i + 1 = num_segments tot seg"
  shows "end_time_of tot seg i = tot \<and> start_time_of seg i \<le> tot"
proof -
  from assms have i: "int i = \<lfloor>tot / real_of_int seg\<rfloor>" by (simp add: num_segments_floor)
  then have "tot / real_of_int seg < real_of_int (int i + 1)" by linarith
  with assms(2) have a: "tot < real_of_int (int i + 1) * real_of_int seg"
    by (simp add: pos_divide_less_eq)
  from i have "real_of_int (int i) \<le> tot / real_of_int seg" by linarith
  with assms(2) have b: "real_of_int (int i) * real_of_int seg \<le> tot"
    by (simp add: pos_le_divide_eq)
  from a b show ?thesis by (simp add: end_time_of_def start_time_of_def min_def)
qed

text \<open>
  C1. An audio of 2 minutes (120 seconds) in segments of 60 seconds: the ceiling of
  120 / 60 is 2, but the loop makes 3 attempts, the third on the empty range from 120 to
  120.
\<close>

theorem num_segments_exact_multiple:
  "\<lceil>(2 * 60 :: real) / real_of_int 60\<rceil> = 2
   \<and> num_segments (2 * 60) 60 = 3
   \<and> (\<exists>content' r.
        transcribe_audio_segments_realtime cfg fmt env 60 2 content =
          Inr (content', [(0, 0, 60), (1, 60, 120), (2, 120, 120)], r))"
proof -
  have n: "num_segments (2 * 60) 60 = 3" by (simp add: num_segments_def py_int_def)
  have c: "\<lceil>(2 * 60 :: real) / real_of_int 60\<rceil> = 2" by simp
  have u: "[0 ..< nat 3] = [0, 1, 2]" by (simp add: upt_rec)
  from transcribe_audio_segments_realtime_returns [of 60 cfg fmt env 2 content]
  obtain content' r where
    "transcribe_audio_segments_realtime cfg fmt env 60 2 content =
       Inr (content',
            map (\<lambda>i. (i, start_time_of 60 i, end_time_of (2 * 60) 60 i))
                [0 ..< nat (num_segments (2 * 60) 60)], r)"
    by auto
  then have "transcribe_audio_segments_realtime cfg fmt env 60 2 content =
          Inr (content', [(0, 0, 60), (1, 60, 120), (2, 120, 120)], r)"
    unfolding n u by (simp add: start_time_of_def end_time_of_def)
  with n c show ?thesis by blast
qed

section \<open>Timestamps of a segment in global time\<close>

text \<open>
  A chunk with no timestamp at all, a shape that neither backend builds, is left as it is
  by the adjustment, and \<^verbatim>\<open>save_result_realtime\<close> writes no line for it.
\<close>

lemma chunk_without_timestamp_not_written:
  "adjust_chunk 60 120 \<lparr>c_text = Some (ascii ''hello world''), c_timestamp = None\<rparr>
     = \<lparr>c_text = Some (ascii ''hello world''), c_timestamp = None\<rparr>
   \<and> save_result_realtime example_fmt True
        (adjust_timestamps 60 120
           \<lparr>r_text = Some (ascii ''hello world''),
            r_chunks = Some [\<lparr>c_text = Some (ascii ''hello world''), c_timestamp = None\<rparr>]\<rparr>)
        [] = Inr []"
  by (simp add: adjust_chunk_def adjust_timestamps_def save_result_realtime_def save_chunk_def
                f_close_def)

lemma filter_hello_world:
  "filter_repetitive_content (ascii ''hello world'') = ascii ''hello world''"
  by (simp add: filter_repetitive_content_def ascii_def py_strip_def py_split_def is_space_def
                has_run4_def Let_def)

lemma filter_good_morning:
  "filter_repetitive_content (ascii ''good morning'') = ascii ''good morning''"
  by (simp add: filter_repetitive_content_def ascii_def py_strip_def py_split_def is_space_def
                has_run4_def Let_def)

lemma strip_hello_world: "py_strip (ascii ''hello world'') = ascii ''hello world''"
  by (simp add: ascii_def py_strip_def is_space_def)

lemma strip_good_morning: "py_strip (ascii ''good morning'') = ascii ''good morning''"
  by (simp add: ascii_def py_strip_def is_space_def)



section \<open>Completeness of a result file\<close>

text \<open>
  In the model, over the real numbers, the file is complete when a last timestamp could
  be read, is not \<open>0\<close>, and lies within 30 seconds of the total duration.
\<close>

lemma resume_transcription_iff:
  "resume_transcription py_float content duration_min \<longleftrightarrow>
     (\<exists>t. last_timestamp_of py_float content = Some t \<and> t \<noteq> 0 \<and> t \<ge> duration_min * 60 - 30)"
  by (simp add: resume_transcription_def split: option.splits)

text \<open>
  C3. A result file whose last line is \<^verbatim>\<open>[0.0s - 0.0s] hello world\<close>, for an audio of half
  a minute: the last end time \<open>0\<close> is read, it equals the total of 30 seconds minus 30,
  and the file is still judged incomplete, because the test \<^verbatim>\<open>if last_timestamp and ...\<close>
  takes the float \<open>0.0\<close> for a missing timestamp.
\<close>

theorem resume_transcription_zero_timestamp:
  "last_timestamp_of (\<lambda>s. if s = ascii ''0.0'' then Some 0 else None)
     (section_label @ [10] @ ascii ''[0.0s - 0.0s] hello world'' @ [10]) = Some 0
   \<and> (0 :: real) \<ge> (1 / 2) * 60 - 30
   \<and> resume_transcription (\<lambda>s. if s = ascii ''0.0'' then Some 0 else None)
        (section_label @ [10] @ ascii ''[0.0s - 0.0s] hello world'' @ [10]) (1 / 2) = False"
proof -
  have l: "last_timestamp_of (\<lambda>s. if s = ascii ''0.0'' then Some 0 else None)
     (section_label @ [10] @ ascii ''[0.0s - 0.0s] hello world'' @ [10]) = Some 0"
    by (simp add: last_timestamp_of_def section_label_def ascii_def startswith_def endswith_def
                  py_split_str_def py_strip_def is_space_def)
  then show ?thesis by (simp add: resume_transcription_def)
qed

section \<open>The result file only grows\<close>

text \<open>
  C9. A new result file is created with the header as its content, and a result file
  that exists is handed on untouched. Saving a result only extends the file: the old
  content is a prefix of the new one. Every chunk that writes a line flushes it: a
  buffer that is empty before a chunk is empty after it. The whole loop over the segments
  returns a content of which the content it started from is a prefix, so the header
  written at creation stays where it is.
\<close>

theorem result_file_append_only:
  "(case create_segmented_transcription fmt h filename timestamp None fs of
      (output_file, fs') \<Rightarrow> fs' output_file = Some (header_block fmt h))
   \<and> (fs (x # xs) \<noteq> None \<longrightarrow>
        create_segmented_transcription fmt h filename timestamp (Some (x # xs)) fs = (x # xs, fs))
   \<and> (save_result_realtime fmt ok res content = Inr content' \<longrightarrow> prefix content content')
   \<and> (pending f = [] \<longrightarrow>
        pending (save_chunk fmt c f) = [] \<and> prefix (disk f) (disk (save_chunk fmt c f)))
   \<and> (seg \<noteq> 0 \<longrightarrow>
        (\<exists>content'' atts r.
           transcribe_audio_segments_realtime cfg fmt env seg duration_min content
             = Inr (content'', atts, r)
           \<and> prefix content content''))"
proof -
  have created: "(case create_segmented_transcription fmt h filename timestamp None fs of
      (output_file, fs') \<Rightarrow> fs' output_file = Some (header_block fmt h))"
    by (simp add: create_segmented_transcription_def Let_def)
  have existing: "fs (x # xs) \<noteq> None \<longrightarrow>
        create_segmented_transcription fmt h filename timestamp (Some (x # xs)) fs = (x # xs, fs)"
    by (simp add: create_segmented_transcription_def)
  have saved: "save_result_realtime fmt ok res content = Inr content' \<longrightarrow> prefix content content'"
    by (blast dest: save_result_realtime_appends)
  have flushed: "pending f = [] \<longrightarrow>
        pending (save_chunk fmt c f) = [] \<and> prefix (disk f) (disk (save_chunk fmt c f))"
    using save_chunk_flushed by blast
  have looped: "seg \<noteq> 0 \<longrightarrow>
        (\<exists>content'' atts r.
           transcribe_audio_segments_realtime cfg fmt env seg duration_min content
             = Inr (content'', atts, r)
           \<and> prefix content content'')"
    using transcribe_audio_segments_realtime_returns [of seg cfg fmt env duration_min content]
    by blast
  from created existing saved flushed looped show ?thesis by blast
qed

lemma save_one_chunk:
  assumes "filter_repetitive_content t = t" "py_strip t \<noteq> []"
  shows "save_result_realtime fmt True
           \<lparr>r_text = rt, r_chunks = Some [\<lparr>c_text = Some t, c_timestamp = Some [Some a, Some b]\<rparr>]\<rparr>
           content
         = Inr (content @ chunk_line fmt (Some a) (Some b) t)"
proof -
  from assms(2) have "t \<noteq> []" by (auto simp: py_strip_def)
  with assms show ?thesis
    by (simp add: save_result_realtime_def save_chunk_def Let_def f_close_def f_flush_def f_write_def)
qed

lemma save_hello_world:
  "save_result_realtime example_fmt True (one_chunk (ascii ''hello world'') 0 5) content
     = Inr (content @ ascii ''[0.0s - 5.0s] hello world'' @ [10])"
proof -
  have ne: "py_strip (ascii ''hello world'') \<noteq> []"
    unfolding strip_hello_world by (simp add: ascii_def)
  have l: "chunk_line example_fmt (Some 0) (Some 5) (ascii ''hello world'')
             = ascii ''[0.0s - 5.0s] hello world'' @ [10]"
    by (simp add: chunk_line_def example_fmt_def ascii_def)
  from save_one_chunk [OF filter_hello_world ne, of example_fmt "Some (ascii ''hello world'')" 0 5 content] l
  show ?thesis by (simp add: one_chunk_def)
qed

theorem result_file_append_only_witness:
  "create_segmented_transcription example_fmt example_header (ascii ''source'')
       (ascii ''20250903_220356'') (Some (ascii ''r.txt''))
       [ascii ''r.txt'' \<mapsto> header_block example_fmt example_header]
     = (ascii ''r.txt'', [ascii ''r.txt'' \<mapsto> header_block example_fmt example_header])
   \<and> save_result_realtime example_fmt True (one_chunk (ascii ''hello world'') 0 5)
        (header_block example_fmt example_header)
       = Inr (header_block example_fmt example_header @ ascii ''[0.0s - 5.0s] hello world'' @ [10])
   \<and> prefix (header_block example_fmt example_header)
        (header_block example_fmt example_header @ ascii ''[0.0s - 5.0s] hello world'' @ [10])
   \<and> pending (save_chunk example_fmt
                 \<lparr>c_text = Some (ascii ''hello world''), c_timestamp = Some [Some 0, Some 5]\<rparr>
                 \<lparr>disk = [], pending = []\<rparr>) = []
   \<and> (\<exists>content'' atts r.
         transcribe_audio_segments_realtime
           \<lparr>model_name = Breeze_ASR_25, model_type = Transformers_Type, faster_whisper_available = False\<rparr>
           example_fmt scenario_env 60 (130 / 60) (header_block example_fmt example_header)
           = Inr (content'', atts, r)
         \<and> prefix (header_block example_fmt example_header) content'')"
proof -
  have e: "[ascii ''r.txt'' \<mapsto> header_block example_fmt example_header] (ascii ''r.txt'') \<noteq> None"
    by simp
  have r: "ascii ''r.txt'' = 114 # ascii ''.txt''" by (simp add: ascii_def)
  have p: "pending \<lparr>disk = [], pending = []\<rparr> = []" by simp
  have z: "(60 :: int) \<noteq> 0" by simp
  note s = save_hello_world [of "header_block example_fmt example_header"]
  from result_file_append_only
         [of example_fmt example_header "ascii ''source''" "ascii ''20250903_220356''"
             "[ascii ''r.txt'' \<mapsto> header_block example_fmt example_header]"
             114 "ascii ''.txt''" True "one_chunk (ascii ''hello world'') 0 5"
             "header_block example_fmt example_header"
             "header_block example_fmt example_header @ ascii ''[0.0s - 5.0s] hello world'' @ [10]"
             "\<lparr>disk = [], pending = []\<rparr>"
             "\<lparr>c_text = Some (ascii ''hello world''), c_timestamp = Some [Some 0, Some 5]\<rparr>"
             60
             "\<lparr>model_name = Breeze_ASR_25, model_type = Transformers_Type, faster_whisper_available = False\<rparr>"
             scenario_env "130 / 60"]
       e r p z s
  show ?thesis by simp
qed

section \<open>A failed segment does not stop the loop\<close>

lemma scenario_transcribe:
  "snd (transcribe_with_fallback cfg (scenario_models i)) =
     Inr (if i = 0 then one_chunk (ascii ''hello world'') 0 5
          else one_chunk (ascii ''good morning'') 1 4)"
  by (simp add: transcribe_with_fallback_def scenario_models_def one_chunk_def Let_def
                strip_hello_world strip_good_morning)
     (simp add: ascii_def)

lemma scenario_first_segment:
  "process_segment cfg fmt scenario_env 0 60 0 st =
     Inr (st\<lparr>file_content := file_content st @ chunk_line fmt (Some 0) (Some 5) (ascii ''hello world''),
            all_results := all_results st @ [one_chunk (ascii ''hello world'') 0 5]\<rparr>)"
proof -
  have ne: "py_strip (ascii ''hello world'') \<noteq> []"
    unfolding strip_hello_world by (simp add: ascii_def)
  have a: "adjust_timestamps 0 60 (one_chunk (ascii ''hello world'') 0 5)
             = one_chunk (ascii ''hello world'') 0 5"
    by (simp add: adjust_timestamps_def adjust_chunk_def one_chunk_def)
  have "ffmpeg scenario_env 0 = Inr 0" "models scenario_env 0 = scenario_models 0"
       "can_append scenario_env 0"
    by (simp_all add: scenario_env_def)
  then show ?thesis
    using save_one_chunk [OF filter_hello_world ne, of fmt "Some (ascii ''hello world'')" 0 5]
    by (simp add: process_segment_def scenario_transcribe a) (simp add: one_chunk_def)
qed

lemma scenario_second_segment:
  "process_segment cfg fmt scenario_env 60 120 1 st = Inr st"
  by (simp add: process_segment_def scenario_env_def)

lemma scenario_third_segment:
  "process_segment cfg fmt scenario_env 120 130 2 st =
     Inr (st\<lparr>file_content := file_content st @ chunk_line fmt (Some 121) (Some 124) (ascii ''good morning''),
            all_results := all_results st @ [one_chunk (ascii ''good morning'') 121 124]\<rparr>)"
proof -
  have ne: "py_strip (ascii ''good morning'') \<noteq> []"
    unfolding strip_good_morning by (simp add: ascii_def)
  have a: "adjust_timestamps 120 130 (one_chunk (ascii ''good morning'') 1 4)
             = one_chunk (ascii ''good morning'') 121 124"
    by (simp add: adjust_timestamps_def adjust_chunk_def one_chunk_def)
  have "ffmpeg scenario_env 2 = Inr 0" "models scenario_env 2 = scenario_models 2"
       "can_append scenario_env 2"
    by (simp_all add: scenario_env_def)
  then show ?thesis
    using save_one_chunk [OF filter_good_morning ne, of fmt "Some (ascii ''good morning'')" 121 124]
    by (simp add: process_segment_def scenario_transcribe a) (simp add: one_chunk_def)
qed

lemma scenario_combined:
  "combine_results [one_chunk (ascii ''hello world'') 0 5, one_chunk (ascii ''good morning'') 121 124]
     = \<lparr>r_text = Some (ascii ''hello world good morning''),
        r_chunks = Some [\<lparr>c_text = Some (ascii ''hello world''), c_timestamp = Some [Some 0, Some 5]\<rparr>,
                         \<lparr>c_text = Some (ascii ''good morning''), c_timestamp = Some [Some 121, Some 124]\<rparr>]\<rparr>"
  by (simp add: combine_results_def one_chunk_def ascii_def py_strip_def is_space_def)

lemma scenario_loop:
  "segment_loop cfg fmt scenario_env 130 60 [0, 1, 2]
     \<lparr>file_content = content, all_results = [], attempts = []\<rparr>
   = \<lparr>file_content = content @ chunk_line fmt (Some 0) (Some 5) (ascii ''hello world'')
                               @ chunk_line fmt (Some 121) (Some 124) (ascii ''good morning''),
      all_results = [one_chunk (ascii ''hello world'') 0 5, one_chunk (ascii ''good morning'') 121 124],
      attempts = [(0, 0, 60), (1, 60, 120), (2, 120, 130)]\<rparr>"
proof -
  have t: "start_time_of 60 0 = 0" "end_time_of 130 60 0 = 60"
          "start_time_of 60 (Suc 0) = 60" "end_time_of 130 60 (Suc 0) = 120"
          "start_time_of 60 2 = 120" "end_time_of 130 60 2 = 130"
    by (simp_all add: start_time_of_def end_time_of_def)
  have s2: "process_segment cfg fmt scenario_env 60 120 (Suc 0) st = Inr st" for st
    using scenario_second_segment [of cfg fmt st] by simp
  show ?thesis
    by (simp add: Let_def t scenario_first_segment s2 scenario_third_segment)
qed

lemma scenario_run:
  "transcribe_audio_segments_realtime cfg fmt scenario_env 60 (130 / 60) content =
     Inr (content @ chunk_line fmt (Some 0) (Some 5) (ascii ''hello world'')
                  @ chunk_line fmt (Some 121) (Some 124) (ascii ''good morning''),
          [(0, 0, 60), (1, 60, 120), (2, 120, 130)],
          \<lparr>r_text = Some (ascii ''hello world good morning''),
           r_chunks = Some [\<lparr>c_text = Some (ascii ''hello world''), c_timestamp = Some [Some 0, Some 5]\<rparr>,
                            \<lparr>c_text = Some (ascii ''good morning''), c_timestamp = Some [Some 121, Some 124]\<rparr>]\<rparr>)"
proof -
  have tot: "(130 / 60 * 60 :: real) = 130" by simp
  have n: "num_segments 130 60 = 3" by (simp add: num_segments_def py_int_def)
  have u: "[0 ..< nat 3] = [0, 1, 2]" by (simp add: upt_rec)
  show ?thesis
    unfolding transcribe_audio_segments_realtime_def Let_def tot n u scenario_loop
    by (simp add: scenario_combined)
qed

text \<open>
  C6. Whatever the extraction, the models and the file do, the run returns and has
  started every segment index from \<open>0\<close> to the number of segments. A segment whose try
  block raises, or whose extraction exits with a non-zero code, leaves the file and the
  results as they were, and the loop goes on with the next index. In the run of 130
  seconds in segments of 60 whose second extraction fails, the three segments
  \<open>[0, 60)\<close>, \<open>[60, 120)\<close>, \<open>[120, 130)\<close> are attempted and the file receives the lines of
  the first and the third only.
\<close>

theorem segment_failure_skipped:
  "(seg \<noteq> 0 \<longrightarrow>
      (\<exists>content' r.
         transcribe_audio_segments_realtime cfg fmt env seg duration_min content =
           Inr (content',
                map (\<lambda>i. (i, start_time_of seg i, end_time_of (duration_min * 60) seg i))
                    [0 ..< nat (num_segments (duration_min * 60) seg)],
                r)))
   \<and> ((\<exists>e. process_segment cfg fmt env (start_time_of seg i) (end_time_of tot seg i) i
              (st\<lparr>attempts := attempts st @ [(i, start_time_of seg i, end_time_of tot seg i)]\<rparr>) = Inl e)
        \<or> (\<exists>returncode. ffmpeg env i = Inr returncode \<and> returncode \<noteq> 0) \<longrightarrow>
      segment_loop cfg fmt env tot seg (i # is) st =
        segment_loop cfg fmt env tot seg is
          (st\<lparr>attempts := attempts st @ [(i, start_time_of seg i, end_time_of tot seg i)]\<rparr>))
   \<and> transcribe_audio_segments_realtime cfg fmt scenario_env 60 (130 / 60) content =
       Inr (content @ chunk_line fmt (Some 0) (Some 5) (ascii ''hello world'')
                    @ chunk_line fmt (Some 121) (Some 124) (ascii ''good morning''),
            [(0, 0, 60), (1, 60, 120), (2, 120, 130)],
            \<lparr>r_text = Some (ascii ''hello world good morning''),
             r_chunks = Some [\<lparr>c_text = Some (ascii ''hello world''), c_timestamp = Some [Some 0, Some 5]\<rparr>,
                              \<lparr>c_text = Some (ascii ''good morning''), c_timestamp = Some [Some 121, Some 124]\<rparr>]\<rparr>)"
proof -
  have all_attempted: "seg \<noteq> 0 \<longrightarrow>
      (\<exists>content' r.
         transcribe_audio_segments_realtime cfg fmt env seg duration_min content =
           Inr (content',
                map (\<lambda>i. (i, start_time_of seg i, end_time_of (duration_min * 60) seg i))
                    [0 ..< nat (num_segments (duration_min * 60) seg)],
                r))"
    using transcribe_audio_segments_realtime_returns [of seg cfg fmt env duration_min content]
    by blast
  have skipped: "(\<exists>e. process_segment cfg fmt env (start_time_of seg i) (end_time_of tot seg i) i
              (st\<lparr>attempts := attempts st @ [(i, start_time_of seg i, end_time_of tot seg i)]\<rparr>) = Inl e)
        \<or> (\<exists>returncode. ffmpeg env i = Inr returncode \<and> returncode \<noteq> 0) \<longrightarrow>
      segment_loop cfg fmt env tot seg (i # is) st =
        segment_loop cfg fmt env tot seg is
          (st\<lparr>attempts := attempts st @ [(i, start_time_of seg i, end_time_of tot seg i)]\<rparr>)"
    by (auto simp: Let_def process_segment_def)
  from all_attempted skipped scenario_run show ?thesis by blast
qed

theorem segment_failure_skipped_witness:
  "ffmpeg scenario_env 1 = Inr 1
   \<and> segment_loop
        \<lparr>model_name = Breeze_ASR_25, model_type = Transformers_Type, faster_whisper_available = False\<rparr>
        example_fmt scenario_env 130 60 [1, 2]
        \<lparr>file_content = [], all_results = [], attempts = []\<rparr>
     = segment_loop
        \<lparr>model_name = Breeze_ASR_25, model_type = Transformers_Type, faster_whisper_available = False\<rparr>
        example_fmt scenario_env 130 60 [2]
        \<lparr>file_content = [], all_results = [], attempts = [(1, 60, 120)]\<rparr>
   \<and> (\<exists>content' r.
         transcribe_audio_segments_realtime
           \<lparr>model_name = Breeze_ASR_25, model_type = Transformers_Type, faster_whisper_available = False\<rparr>
           example_fmt scenario_env 60 (130 / 60) [] =
           Inr (content', [(0, 0, 60), (1, 60, 120), (2, 120, 130)], r))"
proof -
  have f: "ffmpeg scenario_env 1 = Inr 1" by (simp add: scenario_env_def)
  have z: "(60 :: int) \<noteq> 0" "(1 :: int) \<noteq> 0" by simp_all
  have t: "start_time_of 60 1 = 60" "end_time_of 130 60 1 = 120"
    by (simp_all add: start_time_of_def end_time_of_def)
  from segment_failure_skipped
         [of 60 "\<lparr>model_name = Breeze_ASR_25, model_type = Transformers_Type, faster_whisper_available = False\<rparr>"
             example_fmt scenario_env "130 / 60" "[]" 1 130
             "\<lparr>file_content = [], all_results = [], attempts = []\<rparr>" "[2]"]
       f z t
  show ?thesis by auto
qed

section \<open>The result file chosen for resuming\<close>

lemma startswith_append: "startswith (sub @ b) sub"
  by (simp add: startswith_def)

lemma contains_here: "contains (sub @ b) sub"
proof (cases "sub @ b")
  case Nil
  then show ?thesis by simp
next
  case (Cons x xs)
  have "startswith (x # xs) sub"
    using startswith_append [of sub b] Cons by simp
  then show ?thesis using Cons by simp
qed

lemma contains_prepend: "contains s sub \<Longrightarrow> contains (a @ s) sub"
  by (induction a) simp_all

text \<open>The header of a file created for an audio holds both fingerprint lines of that audio.\<close>

lemma header_block_fingerprint:
  "contains (header_block fmt h) (size_line fmt (h_size_mb h))
   \<and> contains (header_block fmt h) (duration_line fmt (h_duration_min h))"
  unfolding header_block_def
  by (intro conjI; (rule contains_here | rule contains_prepend)+)

text \<open>
  \<open>contains\<close>, \<open>startswith\<close> and \<open>endswith\<close> say what \<^verbatim>\<open>in\<close>,
  \<^verbatim>\<open>str.startswith\<close> and \<^verbatim>\<open>str.endswith\<close> say: the text is there as a contiguous
  piece, at the beginning, at the end.
\<close>

lemma startswith_iff: "startswith s p \<longleftrightarrow> (\<exists>r. s = p @ r)"
proof
  assume "startswith s p"
  then have "s = p @ drop (length p) s"
    unfolding startswith_def by (metis append_take_drop_id)
  then show "\<exists>r. s = p @ r" ..
next
  assume "\<exists>r. s = p @ r"
  then show "startswith s p" by (auto simp: startswith_def)
qed

lemma endswith_iff: "endswith s p \<longleftrightarrow> (\<exists>r. s = r @ p)"
proof
  assume e: "endswith s p"
  then have "s = take (length s - length p) s @ p"
    unfolding endswith_def by (metis append_take_drop_id)
  then show "\<exists>r. s = r @ p" ..
next
  assume "\<exists>r. s = r @ p"
  then show "endswith s p" by (auto simp: endswith_def)
qed

lemma contains_iff: "contains s sub \<longleftrightarrow> (\<exists>a b. s = a @ sub @ b)"
proof
  show "contains s sub \<Longrightarrow> \<exists>a b. s = a @ sub @ b"
  proof (induction s)
    case Nil
    then show ?case by simp
  next
    case (Cons c cs)
    show ?case
    proof (cases "startswith (c # cs) sub")
      case True
      then obtain r where "c # cs = sub @ r" by (auto simp: startswith_iff)
      then have "c # cs = [] @ sub @ r" by simp
      then show ?thesis by blast
    next
      case False
      with Cons.prems have "contains cs sub" by simp
      with Cons.IH obtain a b where "cs = a @ sub @ b" by blast
      then have "c # cs = (c # a) @ sub @ b" by simp
      then show ?thesis by blast
    qed
  qed
next
  assume "\<exists>a b. s = a @ sub @ b"
  then obtain a b where "s = a @ sub @ b" by blast
  then show "contains s sub" by (simp add: contains_prepend contains_here)
qed

lemma is_result_file_iff:
  "is_result_file f \<longleftrightarrow> (\<exists>r. f = ascii ''result-'' @ r) \<and> (\<exists>r. f = r @ ascii ''.txt'')"
  by (simp add: is_result_file_def startswith_iff endswith_iff)

text \<open>
  The test of the loop, written out: the file under the output directory can be read,
  and its content holds the line of the size and the line of the duration.
\<close>

lemma fingerprint_matches_iff:
  "fingerprint_matches fmt read size_mb duration_min f \<longleftrightarrow>
     (\<exists>content. read ([36681, 37636, 32080, 26524] @ ascii ''/'' @ f) = Some content
                \<and> (\<exists>a b. content = a @ [27284, 26696, 22823, 23567, 58, 32] @ fmt size_mb @ ascii '' MB'' @ b)
                \<and> (\<exists>a b. content = a @ [38899, 35338, 38263, 24230, 58, 32] @ fmt duration_min @ [32, 20998, 37912] @ b))"
  by (auto simp: fingerprint_matches_def result_path_of_def output_dir_def size_line_def
                 duration_line_def contains_iff split: option.splits)

lemma first_match_find:
  "map_option fst (first_match read (size_line fmt size_mb) (duration_line fmt duration_min) fs) =
   map_option result_path_of (List.find (fingerprint_matches fmt read size_mb duration_min) fs)"
  by (induction fs) (auto simp: fingerprint_matches_def split: option.splits)

lemma sort_newest_first_mset: "mset (sort_newest_first sp xs) = mset xs"
  by (simp add: sort_newest_first_def)

lemma sort_newest_first_sorted:
  "sorted_wrt (\<lambda>a b. extract_timestamp sp b \<le> extract_timestamp sp a) (sort_newest_first sp xs)"
proof -
  have "sorted (map (extract_timestamp sp) (sort_key (extract_timestamp sp) (rev xs)))"
    by (rule sorted_sort_key)
  then have "sorted_wrt (\<lambda>a b. extract_timestamp sp a \<le> extract_timestamp sp b)
               (sort_key (extract_timestamp sp) (rev xs))"
    by (simp add: sorted_wrt_map)
  then show ?thesis
    by (simp add: sort_newest_first_def sorted_wrt_rev)
qed

lemma parse_fails_min: "parse_fails sp f \<Longrightarrow> extract_timestamp sp f = datetime_min"
  by (auto simp: parse_fails_def extract_timestamp_def Let_def split: option.splits)

lemma after_failed_name:
  assumes "i < j" "j < length (sort_newest_first sp xs)" "parse_fails sp (sort_newest_first sp xs ! i)"
  shows "extract_timestamp sp (sort_newest_first sp xs ! j) = datetime_min"
proof -
  from sort_newest_first_sorted [of sp xs] assms(1,2)
  have "extract_timestamp sp (sort_newest_first sp xs ! j)
          \<le> extract_timestamp sp (sort_newest_first sp xs ! i)"
    by (simp add: sorted_wrt_iff_nth_less)
  with parse_fails_min [OF assms(3)] show ?thesis by (simp add: datetime_min_def)
qed

lemma failed_name_not_first:
  assumes "g \<in> set (sort_newest_first sp xs)" "extract_timestamp sp g \<noteq> datetime_min"
  shows "\<not> parse_fails sp (hd (sort_newest_first sp xs))"
proof
  let ?c = "sort_newest_first sp xs"
  assume pf: "parse_fails sp (hd ?c)"
  from assms(1) obtain j where j: "j < length ?c" "?c ! j = g" by (auto simp: in_set_conv_nth)
  then have ne: "?c \<noteq> []" by auto
  then have h: "hd ?c = ?c ! 0" by (simp add: hd_conv_nth)
  show False
  proof (cases "j = 0")
    case True
    with j h pf assms(2) parse_fails_min [of sp g] show False by simp
  next
    case False
    then have "0 < j" by simp
    from after_failed_name [OF this j(1)] pf h j(2) assms(2) show False by simp
  qed
qed

text \<open>
  C2. Without an output directory nothing is found. Otherwise the candidates are the
  files of the directory whose names start with \<^verbatim>\<open>result-\<close> and end with \<^verbatim>\<open>.txt\<close>,
  reordered so that the timestamps of the names descend; a name that fails timestamp
  parsing counts as \<^verbatim>\<open>datetime.min\<close>, so every candidate after it counts as
  \<^verbatim>\<open>datetime.min\<close> too, and it is not the first candidate when some candidate has a
  later timestamp. The file returned is the first candidate, in that order, that can be
  read and whose content holds both fingerprint lines: the label of the size, the size
  to one decimal and \<^verbatim>\<open> MB\<close>; the label of the duration, the duration to one decimal
  and the word for minutes. When no candidate does, nothing is returned.
\<close>

theorem check_existing_transcription_newest_match:
  "check_existing_transcription strptime fmt None read size_mb duration_min = None
   \<and> (\<forall>f. is_result_file f \<longleftrightarrow> (\<exists>r. f = ascii ''result-'' @ r) \<and> (\<exists>r. f = r @ ascii ''.txt''))
   \<and> (let cands = sort_newest_first strptime (filter is_result_file files);
           holds_fingerprint = (\<lambda>f.
             (\<exists>content. read ([36681, 37636, 32080, 26524] @ ascii ''/'' @ f) = Some content
                \<and> (\<exists>a b. content = a @ [27284, 26696, 22823, 23567, 58, 32] @ fmt size_mb @ ascii '' MB'' @ b)
                \<and> (\<exists>a b. content = a @ [38899, 35338, 38263, 24230, 58, 32] @ fmt duration_min @ [32, 20998, 37912] @ b)))
       in
        mset cands = mset (filter is_result_file files)
        \<and> sorted_wrt (\<lambda>a b. extract_timestamp strptime b \<le> extract_timestamp strptime a) cands
        \<and> (\<forall>i j. i < j \<and> j < length cands \<and> parse_fails strptime (cands ! i) \<longrightarrow>
              extract_timestamp strptime (cands ! j) = datetime_min)
        \<and> ((\<exists>g \<in> set cands. extract_timestamp strptime g \<noteq> datetime_min) \<longrightarrow>
              \<not> parse_fails strptime (hd cands))
        \<and> map_option fst (check_existing_transcription strptime fmt (Some files) read size_mb duration_min)
            = map_option (\<lambda>f. [36681, 37636, 32080, 26524] @ ascii ''/'' @ f) (List.find holds_fingerprint cands)
        \<and> (check_existing_transcription strptime fmt (Some files) read size_mb duration_min = None
             \<longleftrightarrow> \<not> (\<exists>f \<in> set cands. holds_fingerprint f)))"
proof -
  define cands where "cands = sort_newest_first strptime (filter is_result_file files)"
  define holds_fingerprint where "holds_fingerprint = (\<lambda>f.
             (\<exists>content. read ([36681, 37636, 32080, 26524] @ ascii ''/'' @ f) = Some content
                \<and> (\<exists>a b. content = a @ [27284, 26696, 22823, 23567, 58, 32] @ fmt size_mb @ ascii '' MB'' @ b)
                \<and> (\<exists>a b. content = a @ [38899, 35338, 38263, 24230, 58, 32] @ fmt duration_min @ [32, 20998, 37912] @ b)))"
  define found where
    "found = check_existing_transcription strptime fmt (Some files) read size_mb duration_min"
  have holds_eq: "holds_fingerprint = fingerprint_matches fmt read size_mb duration_min"
    unfolding holds_fingerprint_def by (rule ext) (rule fingerprint_matches_iff [symmetric])
  have path_eq: "(\<lambda>f. [36681, 37636, 32080, 26524] @ ascii ''/'' @ f) = result_path_of"
    by (rule ext) (simp add: result_path_of_def output_dir_def)
  have none: "check_existing_transcription strptime fmt None read size_mb duration_min = None"
    by (simp add: check_existing_transcription_def)
  have names: "\<forall>f. is_result_file f \<longleftrightarrow> (\<exists>r. f = ascii ''result-'' @ r) \<and> (\<exists>r. f = r @ ascii ''.txt'')"
    using is_result_file_iff by blast
  have perm: "mset cands = mset (filter is_result_file files)"
    unfolding cands_def by (rule sort_newest_first_mset)
  have desc: "sorted_wrt (\<lambda>a b. extract_timestamp strptime b \<le> extract_timestamp strptime a) cands"
    unfolding cands_def by (rule sort_newest_first_sorted)
  have after: "\<forall>i j. i < j \<and> j < length cands \<and> parse_fails strptime (cands ! i) \<longrightarrow>
              extract_timestamp strptime (cands ! j) = datetime_min"
  proof (intro allI impI)
    fix i j
    assume h: "i < j \<and> j < length cands \<and> parse_fails strptime (cands ! i)"
    then have "i < j" "j < length cands" "parse_fails strptime (cands ! i)" by simp_all
    then show "extract_timestamp strptime (cands ! j) = datetime_min"
      unfolding cands_def by (rule after_failed_name)
  qed
  have not_first: "(\<exists>g \<in> set cands. extract_timestamp strptime g \<noteq> datetime_min) \<longrightarrow>
              \<not> parse_fails strptime (hd cands)"
  proof
    assume "\<exists>g \<in> set cands. extract_timestamp strptime g \<noteq> datetime_min"
    then obtain g where "g \<in> set cands" "extract_timestamp strptime g \<noteq> datetime_min" by auto
    then show "\<not> parse_fails strptime (hd cands)"
      unfolding cands_def by (rule failed_name_not_first)
  qed
  have same: "map_option fst found
                = map_option (\<lambda>f. [36681, 37636, 32080, 26524] @ ascii ''/'' @ f) (List.find holds_fingerprint cands)"
    unfolding found_def cands_def holds_eq path_eq
    by (simp add: check_existing_transcription_def first_match_find)
  have "(map_option fst found = None)
          = (map_option (\<lambda>f. [36681, 37636, 32080, 26524] @ ascii ''/'' @ f) (List.find holds_fingerprint cands) = None)"
    by (simp only: same)
  then have "(found = None) = (List.find holds_fingerprint cands = None)" by simp
  also have "(List.find holds_fingerprint cands = None)
               = (\<not> (\<exists>f. f \<in> set cands \<and> holds_fingerprint f))"
    by (rule find_None_iff)
  also have "\<dots> = (\<not> (\<exists>f \<in> set cands. holds_fingerprint f))"
    unfolding Bex_def by (rule refl)
  finally have no_match: "found = None \<longleftrightarrow> \<not> (\<exists>f \<in> set cands. holds_fingerprint f)" .
  have body: "mset cands = mset (filter is_result_file files)
        \<and> sorted_wrt (\<lambda>a b. extract_timestamp strptime b \<le> extract_timestamp strptime a) cands
        \<and> (\<forall>i j. i < j \<and> j < length cands \<and> parse_fails strptime (cands ! i) \<longrightarrow>
              extract_timestamp strptime (cands ! j) = datetime_min)
        \<and> ((\<exists>g \<in> set cands. extract_timestamp strptime g \<noteq> datetime_min) \<longrightarrow>
              \<not> parse_fails strptime (hd cands))
        \<and> map_option fst found
            = map_option (\<lambda>f. [36681, 37636, 32080, 26524] @ ascii ''/'' @ f) (List.find holds_fingerprint cands)
        \<and> (found = None \<longleftrightarrow> \<not> (\<exists>f \<in> set cands. holds_fingerprint f))"
    by (rule conjI [OF perm conjI [OF desc conjI [OF after
          conjI [OF not_first conjI [OF same no_match]]]]])
  show ?thesis
    unfolding Let_def
    by (rule conjI [OF none conjI [OF names
          body [unfolded cands_def holds_fingerprint_def found_def]]])
qed

lemma example_candidates:
  "sort_newest_first example_strptime (filter is_result_file example_listing)
     = [ascii ''result-source-20250904_220356.txt'', ascii ''result-source-20250903_220356.txt'',
        ascii ''result-source-backup.txt'']"
proof -
  have c: "filter is_result_file example_listing
     = [ascii ''result-source-backup.txt'', ascii ''result-source-20250903_220356.txt'',
        ascii ''result-source-20250904_220356.txt'']"
    by (simp add: example_listing_def is_result_file_def startswith_def endswith_def ascii_def)
  have k: "extract_timestamp example_strptime (ascii ''result-source-backup.txt'') = 0"
          "extract_timestamp example_strptime (ascii ''result-source-20250903_220356.txt'') = 3"
          "extract_timestamp example_strptime (ascii ''result-source-20250904_220356.txt'') = 4"
    by (simp_all add: extract_timestamp_def py_split_str_def startswith_def ascii_def
                      example_strptime_def datetime_min_def)
  show ?thesis unfolding c sort_newest_first_def by (simp add: k)
qed

lemma example_newest_other_audio:
  "\<not> fingerprint_matches example_fmt example_read 12.3 2.2 (ascii ''result-source-20250904_220356.txt'')"
proof -
  have r: "example_read (result_path_of (ascii ''result-source-20250904_220356.txt''))
             = Some other_audio_content"
    by (simp add: example_read_def result_path_of_def ascii_def)
  have "\<not> contains other_audio_content (size_line example_fmt 12.3)"
    by (simp add: other_audio_content_def size_line_def duration_line_def example_fmt_def
                  ascii_def startswith_def)
  with r show ?thesis by (simp add: fingerprint_matches_def)
qed

lemma example_header_matches:
  assumes "f \<noteq> ascii ''notes.txt''" "f \<noteq> ascii ''result-source-20250904_220356.txt''"
  shows "fingerprint_matches example_fmt example_read 12.3 2.2 f"
proof -
  have r: "example_read (result_path_of f) = Some (header_block example_fmt example_header)"
    using assms by (simp add: example_read_def result_path_of_def)
  have s: "h_size_mb example_header = 12.3" "h_duration_min example_header = 2.2"
    by (simp_all add: example_header_def)
  from header_block_fingerprint [of example_fmt example_header] r show ?thesis
    by (simp add: fingerprint_matches_def s)
qed

theorem check_existing_transcription_newest_match_witness:
  "sort_newest_first example_strptime (filter is_result_file example_listing)
     = [ascii ''result-source-20250904_220356.txt'', ascii ''result-source-20250903_220356.txt'',
        ascii ''result-source-backup.txt'']
   \<and> parse_fails example_strptime (ascii ''result-source-backup.txt'')
   \<and> extract_timestamp example_strptime (ascii ''result-source-20250904_220356.txt'') \<noteq> datetime_min
   \<and> extract_timestamp example_strptime (ascii ''result-source-20250904_220356.txt'') = 4
   \<and> extract_timestamp example_strptime (ascii ''result-source-20250903_220356.txt'') = 3
   \<and> \<not> fingerprint_matches example_fmt example_read 12.3 2.2 (ascii ''result-source-20250904_220356.txt'')
   \<and> fingerprint_matches example_fmt example_read 12.3 2.2 (ascii ''result-source-20250903_220356.txt'')
   \<and> fingerprint_matches example_fmt example_read 12.3 2.2 (ascii ''result-source-backup.txt'')
   \<and> map_option fst
        (check_existing_transcription example_strptime example_fmt (Some example_listing) example_read 12.3 2.2)
       = Some ([36681, 37636, 32080, 26524] @ ascii ''/result-source-20250903_220356.txt'')"
proof -
  have pf: "parse_fails example_strptime (ascii ''result-source-backup.txt'')"
    by (simp add: parse_fails_def py_split_str_def startswith_def ascii_def example_strptime_def)
  have k: "extract_timestamp example_strptime (ascii ''result-source-20250904_220356.txt'') \<noteq> datetime_min"
    by (simp add: extract_timestamp_def py_split_str_def startswith_def ascii_def
                  example_strptime_def datetime_min_def)
  have k4: "extract_timestamp example_strptime (ascii ''result-source-20250904_220356.txt'') = 4"
    and k3: "extract_timestamp example_strptime (ascii ''result-source-20250903_220356.txt'') = 3"
    by (simp_all add: extract_timestamp_def py_split_str_def startswith_def ascii_def
                      example_strptime_def)
  note m1 = example_newest_other_audio
  have m2: "fingerprint_matches example_fmt example_read 12.3 2.2 (ascii ''result-source-20250903_220356.txt'')"
    by (rule example_header_matches) (simp_all add: ascii_def)
  have m3: "fingerprint_matches example_fmt example_read 12.3 2.2 (ascii ''result-source-backup.txt'')"
    by (rule example_header_matches) (simp_all add: ascii_def)
  have p: "[36681, 37636, 32080, 26524] @ ascii ''/'' @ ascii ''result-source-20250903_220356.txt''
             = [36681, 37636, 32080, 26524] @ ascii ''/result-source-20250903_220356.txt''"
    by (simp add: ascii_def)
  from check_existing_transcription_newest_match
         [of example_strptime example_fmt example_read "12.3" "2.2" example_listing]
  have "map_option fst
        (check_existing_transcription example_strptime example_fmt (Some example_listing) example_read 12.3 2.2)
       = Some ([36681, 37636, 32080, 26524] @ ascii ''/result-source-20250903_220356.txt'')"
    unfolding Let_def example_candidates fingerprint_matches_iff [symmetric]
    using m1 m2 p by simp
  with example_candidates pf k k4 k3 m1 m2 m3 show ?thesis by blast
qed

end
